theory Spec2Isabelle
  imports Complex_Main
begin

section \<open>JavaScript values\<close>

text \<open>
  The card search works on whatever \<^verbatim>\<open>response.json()\<close> hands back, typed \<^verbatim>\<open>any\<close> in the
  source, so the model carries JavaScript values explicitly.  A number is a double: the
  finite ones are represented by their exact rational value, next to \<open>NaN\<close> and the two
  infinities.  Strings are modelled as ASCII text.
\<close>

datatype jsnum = NaN | NInf | Fin rat | PInf

datatype jsval =
    Undefined
  | Null
  | Bool bool
  | Num jsnum
  | Str string
  | Arr "jsval list"
  | Obj "(string \<times> jsval) list"

datatype js_error =
    NetworkError
  | HttpError nat string
  | SyntaxError
  | TypeError

section \<open>The network\<close>

text \<open>
  A response carries the \<^verbatim>\<open>ok\<close> flag, the status line and the result of \<^verbatim>\<open>response.json()\<close>,
  which either yields a value or rejects.  \<^verbatim>\<open>fetch\<close> itself either rejects (transport
  error) or resolves to a response.  The network is an oracle: \<open>net url k\<close> is the outcome
  of the \<open>k\<close>-th request (counted from 1) that one operation sends to \<open>url\<close>.
\<close>

datatype response =
  Response (resp_ok: bool) (resp_status: nat) (resp_statusText: string)
    (resp_json: "js_error + jsval")

datatype fetch_outcome = Rejected js_error | Resolved response

type_synonym network = "string \<Rightarrow> nat \<Rightarrow> fetch_outcome"

datatype event = Fetch string | Wait nat

section \<open>fetchWithRetry\<close>

text \<open>
  The body of the \<^verbatim>\<open>try\<close> block of one attempt: the request, the check of \<^verbatim>\<open>response.ok\<close>
  and the decoding of the body.  \<open>Inl\<close> is the exception that reaches the \<^verbatim>\<open>catch\<close>.
\<close>

definition attempt_request :: "fetch_outcome \<Rightarrow> js_error + jsval" where
  "attempt_request out =
     (case out of
        Rejected e \<Rightarrow> Inl e
      | Resolved r \<Rightarrow>
          if \<not> resp_ok r then Inl (HttpError (resp_status r) (resp_statusText r))
          else resp_json r)"

text \<open>
  The \<^verbatim>\<open>for\<close> loop of \<^verbatim>\<open>fetchWithRetry\<close>, with the attempt counter as an argument.  The
  result pairs what the promise settles to (\<open>Inl\<close>: it rejects) with the requests and
  \<^verbatim>\<open>setTimeout\<close> waits (in milliseconds) in the order they happen.  When the loop
  condition fails the function body ends without a \<^verbatim>\<open>return\<close>, which is \<open>Undefined\<close>.
\<close>

function fetchWithRetry_loop ::
  "network \<Rightarrow> string \<Rightarrow> int \<Rightarrow> int \<Rightarrow> (js_error + jsval) \<times> event list" where
  "fetchWithRetry_loop net url maxRetries attempt =
     (if attempt \<le> maxRetries then
        (case attempt_request (net url (nat attempt)) of
           Inr v \<Rightarrow> (Inr v, [Fetch url])
         | Inl e \<Rightarrow>
             if attempt = maxRetries then (Inl e, [Fetch url])
             else
               (let waitTime = 2 ^ nat (attempt - 1) * 1000;
                    rest = fetchWithRetry_loop net url maxRetries (attempt + 1)
                in (fst rest, Fetch url # Wait waitTime # snd rest)))
      else (Inr Undefined, []))"
  by pat_completeness auto
termination
  by (relation "measure (\<lambda>(net, url, maxRetries, attempt). nat (maxRetries + 1 - attempt))") auto

definition fetchWithRetry :: "network \<Rightarrow> string \<Rightarrow> int \<Rightarrow> (js_error + jsval) \<times> event list" where
  "fetchWithRetry net url maxRetries = fetchWithRetry_loop net url maxRetries 1"

text \<open>
  Vocabulary for statements about retries.  A request succeeds when \<^verbatim>\<open>fetch\<close> resolves to a
  response with a success status whose body decodes as JSON; every other outcome is a
  failure.
\<close>

definition succeeds :: "fetch_outcome \<Rightarrow> bool" where
  "succeeds out =
     (case out of
        Rejected e \<Rightarrow> False
      | Resolved r \<Rightarrow> resp_ok r \<and> (case resp_json r of Inl e \<Rightarrow> False | Inr v \<Rightarrow> True))"

fun is_Fetch :: "event \<Rightarrow> bool" where
  "is_Fetch (Fetch u) = True"
| "is_Fetch (Wait t) = False"

definition requests :: "event list \<Rightarrow> nat" where
  "requests evs = length (filter is_Fetch evs)"

text \<open>
  The schedule of a call whose attempts \<open>a, \<dots>, k - 1\<close> fail and which stops at attempt
  \<open>k\<close>: a request and a wait of \<open>2 ^ (j - 1)\<close> seconds for each failed attempt \<open>j\<close>, then
  the last request.
\<close>

definition schedule :: "string \<Rightarrow> int \<Rightarrow> int \<Rightarrow> event list" where
  "schedule url a k =
     concat (map (\<lambda>j. [Fetch url, Wait (2 ^ nat (j - 1) * 1000)]) [a..k - 1]) @ [Fetch url]"

fun is_json :: "jsval \<Rightarrow> bool" where
  "is_json Undefined = False"
| "is_json (Arr vs) = list_all is_json vs"
| "is_json (Obj kvs) = list_all (\<lambda>kv. is_json (snd kv)) kvs"
| "is_json v = True"

declare fetchWithRetry_loop.simps [simp del]

section \<open>Strings\<close>

text \<open>
  \<^verbatim>\<open>String.prototype.trim\<close> removes white space and line terminators at both ends; on ASCII
  text these are tab, line feed, vertical tab, form feed, carriage return and space.
\<close>

definition is_space :: "char \<Rightarrow> bool" where
  "is_space c = ((of_char c :: nat) \<in> {9, 10, 11, 12, 13, 32})"

definition trim :: "string \<Rightarrow> string" where
  "trim s = rev (dropWhile is_space (rev (dropWhile is_space s)))"

definition lower_char :: "char \<Rightarrow> char" where
  "lower_char c =
     (let n = (of_char c :: nat) in if 65 \<le> n \<and> n \<le> 90 then char_of (n + 32) else c)"

definition toLowerCase :: "string \<Rightarrow> string" where
  "toLowerCase s = map lower_char s"

fun startsWith :: "string \<Rightarrow> string \<Rightarrow> bool" where
  "startsWith s [] = True"
| "startsWith [] (p # ps) = False"
| "startsWith (c # cs) (p # ps) = (c = p \<and> startsWith cs ps)"

fun includes_str :: "string \<Rightarrow> string \<Rightarrow> bool" where
  "includes_str [] p = (p = [])"
| "includes_str (c # cs) p = (startsWith (c # cs) p \<or> includes_str cs p)"

text \<open>
  \<^verbatim>\<open>s.replace(pat, rep)\<close> with a string pattern replaces the first occurrence only.  The
  replacement strings of this program come out of \<^verbatim>\<open>encodeURIComponent\<close>, which leaves no
  \<^verbatim>\<open>$\<close> behind, so no replacement pattern is ever expanded.
\<close>

fun replace_first :: "string \<Rightarrow> string \<Rightarrow> string \<Rightarrow> string" where
  "replace_first [] pat rep = (if pat = [] then rep else [])"
| "replace_first (c # cs) pat rep =
     (if startsWith (c # cs) pat then rep @ drop (length pat) (c # cs)
      else c # replace_first cs pat rep)"

text \<open>\<^verbatim>\<open>s.replace(/\\/$/, '')\<close>: one slash at the very end of the string is removed.\<close>

definition strip_trailing_slash :: "string \<Rightarrow> string" where
  "strip_trailing_slash s = (if s \<noteq> [] \<and> last s = CHR ''/'' then butlast s else s)"

text \<open>
  \<^verbatim>\<open>split('\\n')\<close>: the pieces between line feeds; an empty string gives one empty piece.
\<close>

fun split_lines :: "string \<Rightarrow> string list" where
  "split_lines [] = [[]]"
| "split_lines (c # cs) =
     (if c = CHR 0x0A then [] # split_lines cs
      else (case split_lines cs of
              [] \<Rightarrow> [[c]]
            | l # ls \<Rightarrow> (c # l) # ls))"

text \<open>
  \<^verbatim>\<open>encodeURIComponent\<close> keeps letters, digits and \<^verbatim>\<open>- _ . ! ~ * ' ( )\<close> and writes every other
  ASCII character as a percent sign and two upper-case hexadecimal digits.
\<close>

definition unreserved :: "char \<Rightarrow> bool" where
  "unreserved c =
     (let n = (of_char c :: nat)
      in (65 \<le> n \<and> n \<le> 90) \<or> (97 \<le> n \<and> n \<le> 122) \<or> (48 \<le> n \<and> n \<le> 57)
         \<or> n \<in> {45, 95, 46, 33, 126, 42, 39, 40, 41})"

definition hex_digit :: "nat \<Rightarrow> char" where
  "hex_digit n = ''0123456789ABCDEF'' ! (n mod 16)"

definition encodeURIComponent :: "string \<Rightarrow> string" where
  "encodeURIComponent s =
     concat (map (\<lambda>c. if unreserved c then [c]
                       else [CHR ''%'', hex_digit ((of_char c :: nat) div 16),
                             hex_digit ((of_char c :: nat) mod 16)]) s)"

section \<open>Reading JavaScript values\<close>

definition truthy :: "jsval \<Rightarrow> bool" where
  "truthy v =
     (case v of
        Undefined \<Rightarrow> False
      | Null \<Rightarrow> False
      | Bool b \<Rightarrow> b
      | Num n \<Rightarrow> n \<noteq> NaN \<and> n \<noteq> Fin 0
      | Str s \<Rightarrow> s \<noteq> []
      | Arr vs \<Rightarrow> True
      | Obj kvs \<Rightarrow> True)"

text \<open>\<^verbatim>\<open>a || b\<close>\<close>

definition or_else :: "jsval \<Rightarrow> jsval \<Rightarrow> jsval" where
  "or_else a b = (if truthy a then a else b)"

text \<open>
  \<^verbatim>\<open>v.k\<close> for the property names this program reads (\<^verbatim>\<open>available\<close>, \<^verbatim>\<open>title\<close>, \<^verbatim>\<open>price_min\<close>,
  \<^verbatim>\<open>price_max\<close>, \<^verbatim>\<open>url\<close>, \<^verbatim>\<open>image\<close>, \<^verbatim>\<open>featured_image\<close>, \<^verbatim>\<open>resources\<close>, \<^verbatim>\<open>results\<close>,
  \<^verbatim>\<open>products\<close>): reading a property of \<^verbatim>\<open>undefined\<close> or \<^verbatim>\<open>null\<close> throws a TypeError, an object
  gives the property's value or \<^verbatim>\<open>undefined\<close>, and booleans, numbers, strings and arrays
  have none of these properties.
\<close>

definition get_prop :: "jsval \<Rightarrow> string \<Rightarrow> js_error + jsval" where
  "get_prop v k =
     (case v of
        Undefined \<Rightarrow> Inl TypeError
      | Null \<Rightarrow> Inl TypeError
      | Obj kvs \<Rightarrow> (case map_of kvs k of Some x \<Rightarrow> Inr x | None \<Rightarrow> Inr Undefined)
      | _ \<Rightarrow> Inr Undefined)"

text \<open>\<^verbatim>\<open>v?.k\<close>: \<^verbatim>\<open>undefined\<close> instead of the TypeError.\<close>

definition opt_prop :: "jsval \<Rightarrow> string \<Rightarrow> jsval" where
  "opt_prop v k = (case get_prop v k of Inl e \<Rightarrow> Undefined | Inr x \<Rightarrow> x)"

text \<open>\<^verbatim>\<open>a - b\<close> on doubles: the sign of a finite difference is the sign of the exact one.\<close>

fun minus_num :: "jsnum \<Rightarrow> jsnum \<Rightarrow> jsnum" where
  "minus_num NaN b = NaN"
| "minus_num a NaN = NaN"
| "minus_num PInf PInf = NaN"
| "minus_num NInf NInf = NaN"
| "minus_num PInf b = PInf"
| "minus_num NInf b = NInf"
| "minus_num (Fin x) PInf = NInf"
| "minus_num (Fin x) NInf = PInf"
| "minus_num (Fin x) (Fin y) = Fin (x - y)"

section \<open>Stores and results\<close>

record StoreConfig =
  store_name :: string
  store_key :: string
  store_url :: string
  suggestApiUrl :: string

definition stores :: "StoreConfig list" where
  "stores =
     [\<lparr>store_name = ''Players C&C'', store_key = ''playerscandc'',
       store_url = ''https://playerscandc.com/'',
       suggestApiUrl = ''https://playerscandc.com/search/suggest.json?q={term}&resources[type]=product&resources[limit]=10&section_id=predictive-search''\<rparr>,
      \<lparr>store_name = ''Mana Lounge'', store_key = ''manalounge'',
       store_url = ''https://www.manalounge.ca/'',
       suggestApiUrl = ''https://www.manalounge.ca/search/suggest.json?q={term}&resources[type]=product&resources[limit]=10&section_id=predictive-search''\<rparr>,
      \<lparr>store_name = ''Lamood Comics'', store_key = ''lamoodcomics'',
       store_url = ''https://lamoodcomics.ca/'',
       suggestApiUrl = ''https://lamoodcomics.ca/search/suggest.json?q={term}&resources[type]=product&resources[limit]=10&section_id=predictive-search''\<rparr>]"

text \<open>
  \<^verbatim>\<open>interface CardResult\<close>.  The title and the image are whatever the store sent, so they
  stay JavaScript values; the prices are what \<^verbatim>\<open>parseFloat\<close> returned.
\<close>

record CardResult =
  store :: string
  name :: jsval
  priceMin :: jsnum
  priceMax :: jsnum
  availability :: string
  url :: string
  image :: jsval
  condition :: string

datatype search_status = found | not_found | no_inventory

record CardSearchResult =
  cardName :: string
  status :: search_status
  results :: "CardResult list"

section \<open>What is left to the engine\<close>

text \<open>
  Three things are left to the JavaScript engine and taken as parameters: \<^verbatim>\<open>parseFloat\<close>,
  from any value to a number; the string conversion a template literal applies to a value
  that is not a string (both can throw on an object that shadows \<^verbatim>\<open>toString\<close>); and the
  order in which \<^verbatim>\<open>Array.prototype.sort\<close> leaves an array whose comparator is not
  consistent, which ECMAScript leaves to the implementation.  \<open>engine_order xs i\<close> is the
  rank the engine gives the element at index \<open>i\<close> of \<open>xs\<close>.
\<close>

record builtins =
  parseFloat :: "jsval \<Rightarrow> js_error + jsnum"
  ToString :: "jsval \<Rightarrow> js_error + string"
  engine_order :: "CardResult list \<Rightarrow> nat \<Rightarrow> nat"

definition template_string :: "builtins \<Rightarrow> jsval \<Rightarrow> js_error + string" where
  "template_string bi v = (case v of Str s \<Rightarrow> Inr s | _ \<Rightarrow> ToString bi v)"

section \<open>validateCardName\<close>

text \<open>One request, no retry; a rejected \<^verbatim>\<open>fetch\<close> is caught and gives \<^verbatim>\<open>false\<close>.\<close>

definition validateCardName :: "network \<Rightarrow> string \<Rightarrow> bool \<times> event list" where
  "validateCardName net cname =
     (let u = ''https://api.scryfall.com/cards/named?exact='' @ encodeURIComponent (trim cname)
      in (case net u 1 of
            Rejected e \<Rightarrow> (False, [Fetch u])
          | Resolved response \<Rightarrow> (resp_ok response, [Fetch u])))"

section \<open>The query of one store\<close>

text \<open>Array methods whose callback can throw: the first exception ends the traversal.\<close>

fun filter_throwing :: "('a \<Rightarrow> js_error + bool) \<Rightarrow> 'a list \<Rightarrow> js_error + 'a list" where
  "filter_throwing p [] = Inr []"
| "filter_throwing p (x # xs) =
     (case p x of
        Inl e \<Rightarrow> Inl e
      | Inr b \<Rightarrow>
          (case filter_throwing p xs of
             Inl e \<Rightarrow> Inl e
           | Inr ys \<Rightarrow> Inr (if b then x # ys else ys)))"

fun map_throwing :: "('a \<Rightarrow> js_error + 'b) \<Rightarrow> 'a list \<Rightarrow> js_error + 'b list" where
  "map_throwing f [] = Inr []"
| "map_throwing f (x # xs) =
     (case f x of
        Inl e \<Rightarrow> Inl e
      | Inr y \<Rightarrow>
          (case map_throwing f xs of
             Inl e \<Rightarrow> Inl e
           | Inr ys \<Rightarrow> Inr (y # ys)))"

text \<open>\<^verbatim>\<open>data?.resources?.results?.products || []\<close>\<close>

definition extract_products :: "jsval \<Rightarrow> jsval" where
  "extract_products data =
     or_else (opt_prop (opt_prop (opt_prop data ''resources'') ''results'') ''products'')
       (Arr [])"

text \<open>
  \<^verbatim>\<open>products.filter\<close>: only an array has the method; on any other value that got past
  \<^verbatim>\<open>|| []\<close> the call throws a TypeError.
\<close>

definition array_elements :: "jsval \<Rightarrow> js_error + jsval list" where
  "array_elements v = (case v of Arr vs \<Rightarrow> Inr vs | _ \<Rightarrow> Inl TypeError)"

text \<open>\<^verbatim>\<open>product.available === true\<close>\<close>

definition is_available :: "jsval \<Rightarrow> js_error + bool" where
  "is_available product =
     (case get_prop product ''available'' of
        Inl e \<Rightarrow> Inl e
      | Inr a \<Rightarrow> Inr (a = Bool True))"

text \<open>
  The second filter: \<^verbatim>\<open>(product.title || '').toLowerCase()\<close> throws a TypeError when the
  title is a truthy value that is not a string.
\<close>

definition title_matches :: "string \<Rightarrow> jsval \<Rightarrow> js_error + bool" where
  "title_matches cname product =
     (case get_prop product ''title'' of
        Inl e \<Rightarrow> Inl e
      | Inr t \<Rightarrow>
          (case or_else t (Str []) of
             Str s \<Rightarrow>
               (let productTitle = toLowerCase s;
                    searchCardName = toLowerCase cname
                in Inr (includes_str productTitle searchCardName))
           | _ \<Rightarrow> Inl TypeError))"

text \<open>The object literal of the \<^verbatim>\<open>map\<close> callback, its fields evaluated in source order.\<close>

definition to_result :: "builtins \<Rightarrow> StoreConfig \<Rightarrow> jsval \<Rightarrow> js_error + CardResult" where
  "to_result bi st product =
     (case get_prop product ''title'' of Inl e \<Rightarrow> Inl e | Inr title \<Rightarrow>
      case get_prop product ''price_min'' of Inl e \<Rightarrow> Inl e | Inr price_min \<Rightarrow>
      case parseFloat bi (or_else price_min (Str ''0'')) of Inl e \<Rightarrow> Inl e | Inr pmin \<Rightarrow>
      case get_prop product ''price_max'' of Inl e \<Rightarrow> Inl e | Inr price_max \<Rightarrow>
      case parseFloat bi (or_else price_max (Str ''0'')) of Inl e \<Rightarrow> Inl e | Inr pmax \<Rightarrow>
      case get_prop product ''url'' of Inl e \<Rightarrow> Inl e | Inr product_url \<Rightarrow>
      case (if truthy product_url
            then (case template_string bi product_url of
                    Inl e \<Rightarrow> Inl e
                  | Inr path \<Rightarrow> Inr (strip_trailing_slash (store_url st) @ path))
            else Inr (store_url st)) of Inl e \<Rightarrow> Inl e | Inr link \<Rightarrow>
      case get_prop product ''image'' of Inl e \<Rightarrow> Inl e | Inr product_image \<Rightarrow>
      case (if truthy product_image then Inr product_image
            else (case get_prop product ''featured_image'' of
                    Inl e \<Rightarrow> Inl e
                  | Inr featured \<Rightarrow> Inr (opt_prop featured ''url''))) of
        Inl e \<Rightarrow> Inl e | Inr img \<Rightarrow>
      Inr \<lparr>store = store_name st,
           name = or_else title (Str ''Unknown Card''),
           priceMin = pmin,
           priceMax = pmax,
           availability = ''In Stock'',
           url = link,
           image = img,
           condition = ''NM''\<rparr>)"

text \<open>What the \<^verbatim>\<open>try\<close> block does with the decoded body.\<close>

definition parse_products ::
  "builtins \<Rightarrow> StoreConfig \<Rightarrow> string \<Rightarrow> jsval \<Rightarrow> js_error + CardResult list" where
  "parse_products bi st cname data =
     (case array_elements (extract_products data) of Inl e \<Rightarrow> Inl e | Inr products \<Rightarrow>
      case filter_throwing is_available products of Inl e \<Rightarrow> Inl e | Inr avail \<Rightarrow>
      case filter_throwing (title_matches cname) avail of Inl e \<Rightarrow> Inl e | Inr matching \<Rightarrow>
      map_throwing (to_result bi st) matching)"

definition proxy_url :: "StoreConfig \<Rightarrow> string \<Rightarrow> string" where
  "proxy_url st cname =
     (let encodedSearchTerm = encodeURIComponent (trim cname);
          apiUrl = replace_first (suggestApiUrl st) ''{term}'' encodedSearchTerm
      in ''https://api.allorigins.win/raw?url='' @ encodeURIComponent apiUrl)"

text \<open>
  The \<^verbatim>\<open>try\<close> block of the callback given to \<^verbatim>\<open>stores.map\<close>: \<open>Inl\<close> is the exception that
  reaches its \<^verbatim>\<open>catch\<close>.
\<close>

definition searchStore_try ::
  "builtins \<Rightarrow> network \<Rightarrow> StoreConfig \<Rightarrow> string \<Rightarrow> (js_error + CardResult list) \<times> event list"
  where
  "searchStore_try bi net st cname =
     (let fetched = fetchWithRetry net (proxy_url st cname) 3
      in (case fst fetched of
            Inl e \<Rightarrow> (Inl e, snd fetched)
          | Inr data \<Rightarrow> (parse_products bi st cname data, snd fetched)))"

text \<open>The whole callback: the \<^verbatim>\<open>catch\<close> turns every exception into an empty array.\<close>

definition searchStore ::
  "builtins \<Rightarrow> network \<Rightarrow> StoreConfig \<Rightarrow> string \<Rightarrow> CardResult list \<times> event list" where
  "searchStore bi net st cname =
     (let attempt = searchStore_try bi net st cname
      in (case fst attempt of
            Inl e \<Rightarrow> ([], snd attempt)
          | Inr rs \<Rightarrow> (rs, snd attempt)))"

section \<open>Sorting by minimum price\<close>

text \<open>
  \<^verbatim>\<open>Array.prototype.sort\<close> is a stable comparison sort.  The sorting algorithm sees a
  comparator result only after a \<open>NaN\<close> has been replaced by \<open>+0\<close>, as negative, zero or
  positive.  When these answers are consistent on the elements of the array (zero is
  reflexive, symmetric and transitive; negative and positive are transitive) there is one
  order a stable sort can return, and insertion sort computes it: an element moves past
  those the comparator puts strictly before it.  When they are not, the order is the
  engine's own: the elements arranged by the ranks the engine gives them.
\<close>

definition compare_priceMin :: "CardResult \<Rightarrow> CardResult \<Rightarrow> jsnum" where
  "compare_priceMin a b = minus_num (priceMin a) (priceMin b)"

fun positive :: "jsnum \<Rightarrow> bool" where
  "positive PInf = True"
| "positive (Fin x) = (0 < x)"
| "positive NInf = False"
| "positive NaN = False"

fun sort_insert :: "('a \<Rightarrow> 'a \<Rightarrow> jsnum) \<Rightarrow> 'a \<Rightarrow> 'a list \<Rightarrow> 'a list" where
  "sort_insert cmp x [] = [x]"
| "sort_insert cmp x (y # ys) =
     (if positive (cmp x y) then y # sort_insert cmp x ys else x # y # ys)"

fun negative :: "jsnum \<Rightarrow> bool" where
  "negative NInf = True"
| "negative (Fin x) = (x < 0)"
| "negative PInf = False"
| "negative NaN = False"

definition is_zero :: "jsnum \<Rightarrow> bool" where
  "is_zero v = (\<not> negative v \<and> \<not> positive v)"

definition consistent :: "('a \<Rightarrow> 'a \<Rightarrow> jsnum) \<Rightarrow> 'a list \<Rightarrow> bool" where
  "consistent cmp xs =
     (\<forall>a\<in>set xs. \<forall>b\<in>set xs. \<forall>c\<in>set xs.
        is_zero (cmp a a) \<and>
        (is_zero (cmp a b) \<longrightarrow> is_zero (cmp b a)) \<and>
        (is_zero (cmp a b) \<and> is_zero (cmp b c) \<longrightarrow> is_zero (cmp a c)) \<and>
        (negative (cmp a b) \<and> negative (cmp b c) \<longrightarrow> negative (cmp a c)) \<and>
        (positive (cmp a b) \<and> positive (cmp b c) \<longrightarrow> positive (cmp a c)))"

definition stable_sort :: "('a \<Rightarrow> 'a \<Rightarrow> jsnum) \<Rightarrow> 'a list \<Rightarrow> 'a list" where
  "stable_sort cmp xs = foldr (sort_insert cmp) xs []"

definition array_sort ::
  "('a list \<Rightarrow> nat \<Rightarrow> nat) \<Rightarrow> ('a \<Rightarrow> 'a \<Rightarrow> jsnum) \<Rightarrow> 'a list \<Rightarrow> 'a list" where
  "array_sort order cmp xs =
     (if consistent cmp xs then stable_sort cmp xs
      else map (\<lambda>i. xs ! i) (sort_key (order xs) [0..<length xs]))"

section \<open>searchSingleCard\<close>

text \<open>
  The result comes with the request of the validation and, for each store in the order
  of \<open>stores\<close>, the requests and waits of that store's query; the store queries run
  concurrently, each with a sequence of its own.
\<close>

definition searchSingleCard ::
  "builtins \<Rightarrow> network \<Rightarrow> string \<Rightarrow> CardSearchResult \<times> event list \<times> event list list" where
  "searchSingleCard bi net cname =
     (let validation = validateCardName net cname;
          isValidCard = fst validation
      in if \<not> isValidCard
         then (\<lparr>cardName = cname, status = not_found, results = []\<rparr>, snd validation, [])
         else
           (let searches = map (\<lambda>st. searchStore bi net st cname) stores;
                allResults = map fst searches;
                flatResults = concat allResults
            in (\<lparr>cardName = cname,
                 status = (if length flatResults > 0 then found else no_inventory),
                 results = array_sort (engine_order bi) compare_priceMin flatResults\<rparr>,
                snd validation, map snd searches)))"

section \<open>searchCards\<close>

text \<open>
  The part of the component state that \<^verbatim>\<open>searchCards\<close> reads or writes.  The search mode
  is the union type \<^verbatim>\<open>'single' | 'list'\<close>.
\<close>

datatype search_mode = SingleMode | ListMode

record AppState =
  searchTerm :: string
  cardList :: string
  searchResults :: "CardSearchResult list"
  loading :: bool
  error :: string
  showSuggestions :: bool
  searchMode :: search_mode

text \<open>
  What an observer of the batch sees: the pause of \<^verbatim>\<open>setTimeout\<close> (milliseconds), the call of
  \<^verbatim>\<open>searchSingleCard\<close> on a name, and each \<^verbatim>\<open>setSearchResults\<close> with the array it publishes.
\<close>

datatype ui_event = Delay nat | SearchCall string | Publish "CardSearchResult list"

definition cardsToSearch :: "AppState \<Rightarrow> string list" where
  "cardsToSearch s =
     (if searchMode s = SingleMode then [trim (searchTerm s)]
      else filter (\<lambda>card. card \<noteq> []) (map trim (split_lines (cardList s))))"

text \<open>
  The \<^verbatim>\<open>for\<close> loop over \<^verbatim>\<open>cardsToSearch\<close>, from index \<open>i\<close> on, with the array \<^verbatim>\<open>results\<close>
  built so far.  \<open>nets i\<close> is the network as it answers while card \<open>i\<close> is searched.
\<close>

fun search_loop ::
  "builtins \<Rightarrow> (nat \<Rightarrow> network) \<Rightarrow> nat \<Rightarrow> string list \<Rightarrow> CardSearchResult list \<Rightarrow>
   CardSearchResult list \<times> ui_event list" where
  "search_loop bi nets i [] rs = (rs, [])"
| "search_loop bi nets i (cname # rest) rs =
     (let pause = (if i > 0 then [Delay 100] else []);
          result = fst (searchSingleCard bi (nets i) cname);
          rs' = rs @ [result];
          later = search_loop bi nets (i + 1) rest rs'
      in (fst later, pause @ [SearchCall cname, Publish rs'] @ snd later))"

definition searchCards ::
  "builtins \<Rightarrow> (nat \<Rightarrow> network) \<Rightarrow> AppState \<Rightarrow> AppState \<times> ui_event list" where
  "searchCards bi nets s =
     (let cards = cardsToSearch s
      in if length cards = 0
         then (s\<lparr>error := (if searchMode s = SingleMode
                            then ''Please enter a card name to search''
                            else ''Please enter at least one card name'')\<rparr>, [])
         else
           (let s1 = s\<lparr>loading := True, error := [], searchResults := [],
                       showSuggestions := False\<rparr>;
                run = search_loop bi nets 0 cards [];
                rs = fst run;
                totalFound = length (filter (\<lambda>r. status r = found) rs);
                totalNotFound = length (filter (\<lambda>r. status r = not_found) rs);
                totalNoInventory = length (filter (\<lambda>r. status r = no_inventory) rs);
                s2 = s1\<lparr>searchResults := rs\<rparr>;
                s3 = (if totalFound = 0 \<and> totalNotFound = 0 \<and> totalNoInventory = 0
                      then s2\<lparr>error := ''No cards found. Please check your search terms.''\<rparr>
                      else s2)
            in (s3\<lparr>loading := False\<rparr>, Publish [] # snd run)))"

section \<open>Worked inputs\<close>

text \<open>
  An instance of the engine's part, for the worked inputs below, where it agrees with the
  engine: \<^verbatim>\<open>parseFloat\<close> of a string of decimal digits with an optional minus sign and an
  optional fraction, whose value a double holds exactly, and of a string that starts with
  no number (\<open>NaN\<close>).  The string conversion is not reached on these inputs.  The one
  array below whose comparator is not consistent has the prices 2, \<open>NaN\<close>, 1 in this order:
  every comparison of neighbours involves the \<open>NaN\<close> and reads as \<open>+0\<close>, so an engine that
  first looks for a run already in order, as V8 does, finds the whole array to be one and
  leaves it as it is; the ranks are the indices.
\<close>

definition digit_val :: "char \<Rightarrow> nat option" where
  "digit_val c =
     (let n = (of_char c :: nat) in if 48 \<le> n \<and> n \<le> 57 then Some (n - 48) else None)"

fun parse_digits :: "string \<Rightarrow> nat \<Rightarrow> (nat \<times> string)" where
  "parse_digits [] acc = (acc, [])"
| "parse_digits (c # cs) acc =
     (case digit_val c of
        None \<Rightarrow> (acc, c # cs)
      | Some d \<Rightarrow> parse_digits cs (10 * acc + d))"

definition parse_unsigned :: "string \<Rightarrow> jsnum" where
  "parse_unsigned s =
     (case s of
        [] \<Rightarrow> NaN
      | c # cs \<Rightarrow>
          (if digit_val c = None then NaN
           else
             (let whole = parse_digits s 0
              in (case snd whole of
                    d # ds \<Rightarrow>
                      (if d = CHR ''.''
                       then (let frac = parse_digits ds 0;
                                 places = length ds - length (snd frac)
                             in Fin (of_nat (fst whole) + of_nat (fst frac) / 10 ^ places))
                       else Fin (of_nat (fst whole)))
                  | [] \<Rightarrow> Fin (of_nat (fst whole))))))"

definition parse_decimal :: "string \<Rightarrow> jsnum" where
  "parse_decimal s =
     (case s of
        [] \<Rightarrow> NaN
      | c # cs \<Rightarrow>
          (if c = CHR ''-''
           then (case parse_unsigned cs of Fin x \<Rightarrow> Fin (- x) | other \<Rightarrow> other)
           else parse_unsigned s))"

definition example_builtins :: builtins where
  "example_builtins =
     \<lparr>parseFloat = (\<lambda>v. case v of Str s \<Rightarrow> Inr (parse_decimal s) | _ \<Rightarrow> Inr NaN),
      ToString = (\<lambda>v. Inl TypeError),
      engine_order = (\<lambda>xs i. i)\<rparr>"

text \<open>
  Three networks: one whose first two answers are transport errors and whose third is a
  success with a JSON object as body, one that answers every request with status 503, and
  one that answers every request with status 200 and a body that does not decode.
\<close>

definition flaky_net :: network where
  "flaky_net u k =
     (if k < 3 then Rejected NetworkError
      else Resolved (Response True 200 ''OK'' (Inr (Obj [(''resources'', Obj [])]))))"

definition garbled_net :: network where
  "garbled_net u k = Resolved (Response True 200 ''OK'' (Inl SyntaxError))"

definition dead_net :: network where
  "dead_net u k = Resolved (Response False 503 ''Service Unavailable'' (Inl SyntaxError))"

text \<open>
  \<^verbatim>\<open>a <= b\<close> on doubles, the order in which a list of prices is ascending; \<open>NaN\<close> is
  comparable with nothing.
\<close>

fun num_le :: "jsnum \<Rightarrow> jsnum \<Rightarrow> bool" where
  "num_le NaN b = False"
| "num_le a NaN = False"
| "num_le NInf b = True"
| "num_le a PInf = True"
| "num_le PInf b = False"
| "num_le (Fin x) NInf = False"
| "num_le (Fin x) (Fin y) = (x \<le> y)"

definition ascending :: "CardResult list \<Rightarrow> bool" where
  "ascending rs = sorted_wrt (\<lambda>a b. num_le (priceMin a) (priceMin b)) rs"

text \<open>
  A product as a store sends it, a store's answer listing some products, and a network on
  which the three stores answer the search for \<^verbatim>\<open>Bolt\<close> each in its own way, the same at
  every attempt; every other request, the validation among them, gets status 200 and the
  body \<^verbatim>\<open>null\<close>.
\<close>

definition product_json :: "string \<Rightarrow> string \<Rightarrow> string \<Rightarrow> jsval" where
  "product_json title pmin pmax =
     Obj [(''available'', Bool True), (''title'', Str title),
          (''price_min'', Str pmin), (''price_max'', Str pmax),
          (''url'', Str ''/products/bolt'')]"

definition listing_body :: "jsval list \<Rightarrow> jsval" where
  "listing_body products =
     Obj [(''resources'', Obj [(''results'', Obj [(''products'', Arr products)])])]"

definition listing :: "jsval list \<Rightarrow> fetch_outcome" where
  "listing products = Resolved (Response True 200 ''OK'' (Inr (listing_body products)))"

definition bolt_net :: "fetch_outcome \<Rightarrow> fetch_outcome \<Rightarrow> fetch_outcome \<Rightarrow> network" where
  "bolt_net out0 out1 out2 u k =
     (if u = proxy_url (stores ! 0) ''Bolt'' then out0
      else if u = proxy_url (stores ! 1) ''Bolt'' then out1
      else if u = proxy_url (stores ! 2) ''Bolt'' then out2
      else Resolved (Response True 200 ''OK'' (Inr Null)))"

text \<open>What the callback of \<^verbatim>\<open>stores.map\<close> returns for store \<open>i\<close> on that network.\<close>

definition store_results :: "builtins \<Rightarrow> nat \<Rightarrow> fetch_outcome \<Rightarrow> CardResult list" where
  "store_results bi i out =
     (case attempt_request out of
        Inl e \<Rightarrow> []
      | Inr data \<Rightarrow>
          (case parse_products bi (stores ! i) ''Bolt'' data of
             Inl e \<Rightarrow> []
           | Inr rs \<Rightarrow> rs))"

section \<open>Properties of fetchWithRetry\<close>

lemma attempt_request_Inr:
  "attempt_request out = Inr v \<longleftrightarrow> (\<exists>r. out = Resolved r \<and> resp_ok r \<and> resp_json r = Inr v)"
  by (auto simp: attempt_request_def split: fetch_outcome.splits)

lemma attempt_request_Rejected: "attempt_request (Rejected e) = Inl e"
  by (simp add: attempt_request_def)

lemma attempt_request_status:
  "\<not> resp_ok r \<Longrightarrow>
     attempt_request (Resolved r) = Inl (HttpError (resp_status r) (resp_statusText r))"
  by (simp add: attempt_request_def)

lemma attempt_request_body: "resp_ok r \<Longrightarrow> attempt_request (Resolved r) = resp_json r"
  by (simp add: attempt_request_def)

lemma succeeds_attempt:
  "succeeds out = (case attempt_request out of Inr v \<Rightarrow> True | Inl e \<Rightarrow> False)"
  by (auto simp: succeeds_def attempt_request_def split: fetch_outcome.splits sum.splits)

lemma schedule_single: "schedule u k k = [Fetch u]"
  by (simp add: schedule_def)

lemma schedule_step:
  "a < k \<Longrightarrow> schedule u a k = Fetch u # Wait (2 ^ nat (a - 1) * 1000) # schedule u (a + 1) k"
  by (simp add: schedule_def upto_rec1 [of a "k - 1"])

lemma requests_pairs:
  "length (filter is_Fetch (concat (map (\<lambda>j. [Fetch u, Wait (w j)]) js))) = length js"
  by (induction js) simp_all

lemma requests_schedule: "a \<le> k \<Longrightarrow> requests (schedule u a k) = nat (k - a + 1)"
  by (simp add: requests_def schedule_def requests_pairs)

lemma fetchWithRetry_loop_stops:
  assumes "a \<le> k" and "k \<le> m"
    and "\<forall>j. a \<le> j \<and> j < k \<longrightarrow> \<not> succeeds (net u (nat j))"
    and "succeeds (net u (nat k)) \<or> k = m"
  shows "fetchWithRetry_loop net u m a = (attempt_request (net u (nat k)), schedule u a k)"
  using assms
proof (induction "nat (k - a)" arbitrary: a)
  case 0
  then have ak: "a = k" by simp
  show ?case
    using "0.prems"(2,4) unfolding ak
    by (subst fetchWithRetry_loop.simps)
       (auto simp: schedule_single succeeds_attempt split: sum.splits)
next
  case (Suc n)
  then have lt: "a < k" by simp
  have fail: "\<not> succeeds (net u (nat a))"
    using Suc.prems(3) lt by simp
  have rest: "fetchWithRetry_loop net u m (a + 1) = (attempt_request (net u (nat k)), schedule u (a + 1) k)"
    using Suc.hyps(1) [of "a + 1"] Suc.hyps(2) Suc.prems lt by simp
  show ?case
    using fail lt Suc.prems(2) rest
    by (subst fetchWithRetry_loop.simps)
       (auto simp: schedule_step succeeds_attempt Let_def split: sum.splits)
qed

lemma fetchWithRetry_loop_exit:
  "m < a \<Longrightarrow> fetchWithRetry_loop net u m a = (Inr Undefined, [])"
  by (subst fetchWithRetry_loop.simps) simp


lemma first_success:
  assumes "\<exists>j\<in>{1..m}. succeeds (net u (nat j))"
  shows "\<exists>k\<in>{1..m}. succeeds (net u (nat k)) \<and> (\<forall>j\<in>{1..<k}. \<not> succeeds (net u (nat j)))"
proof -
  define P where "P n \<longleftrightarrow> 1 \<le> n \<and> int n \<le> m \<and> succeeds (net u n)" for n
  define n0 where "n0 = (LEAST n. P n)"
  from assms obtain j where j: "1 \<le> j" "j \<le> m" "succeeds (net u (nat j))" by auto
  then have "P (nat j)" by (simp add: P_def)
  then have least: "P n0"
    unfolding n0_def by (rule LeastI)
  have minimal: "n0 \<le> n" if "P n" for n
    unfolding n0_def using that by (rule Least_le)
  have "int n0 \<in> {1..m}" and "succeeds (net u (nat (int n0)))"
    using least by (simp_all add: P_def)
  moreover have "\<not> succeeds (net u (nat i))" if "i \<in> {1..<int n0}" for i
  proof
    assume "succeeds (net u (nat i))"
    then have "P (nat i)" using that \<open>int n0 \<in> {1..m}\<close> by (auto simp: P_def)
    then have "n0 \<le> nat i" by (rule minimal)
    then show False using that by auto
  qed
  ultimately show ?thesis by blast
qed

lemma fetchWithRetry_all_fail:
  assumes "1 \<le> m" and "\<forall>j\<in>{1..m}. \<not> succeeds (net u (nat j))"
  shows "fetchWithRetry net u m = (attempt_request (net u (nat m)), schedule u 1 m)"
    and "\<exists>e. attempt_request (net u (nat m)) = Inl e"
proof -
  show "fetchWithRetry net u m = (attempt_request (net u (nat m)), schedule u 1 m)"
    unfolding fetchWithRetry_def using assms
    by (intro fetchWithRetry_loop_stops) auto
  have "\<not> succeeds (net u (nat m))"
    using assms by simp
  then show "\<exists>e. attempt_request (net u (nat m)) = Inl e"
    by (auto simp: succeeds_attempt split: sum.splits)
qed

lemma fetchWithRetry_first_success:
  assumes "\<exists>j\<in>{1..m}. succeeds (net u (nat j))"
  shows "\<exists>k\<in>{1..m}. \<exists>r v. (\<forall>j\<in>{1..<k}. \<not> succeeds (net u (nat j))) \<and>
            net u (nat k) = Resolved r \<and> resp_ok r \<and> resp_json r = Inr v \<and>
            fetchWithRetry net u m = (Inr v, schedule u 1 k)"
proof -
  from first_success [of m net u] assms obtain k where
    k: "k \<in> {1..m}" "succeeds (net u (nat k))" "\<forall>j\<in>{1..<k}. \<not> succeeds (net u (nat j))"
    by blast
  have run: "fetchWithRetry net u m = (attempt_request (net u (nat k)), schedule u 1 k)"
    unfolding fetchWithRetry_def using k
    by (intro fetchWithRetry_loop_stops) auto
  obtain v where v: "attempt_request (net u (nat k)) = Inr v"
    using k(2) by (auto simp: succeeds_attempt split: sum.splits)
  then obtain r where "net u (nat k) = Resolved r" "resp_ok r" "resp_json r = Inr v"
    by (auto simp: attempt_request_Inr)
  with k run v show ?thesis by auto
qed

text \<open>
  C2: with \<open>maxRetries \<ge> 1\<close>, \<^verbatim>\<open>fetchWithRetry\<close> sends at most \<open>maxRetries\<close> requests.  When
  every request fails it sends exactly \<open>maxRetries\<close> requests, waits \<open>2 ^ (j - 1)\<close> seconds
  after failed request \<open>j\<close> (1 s, 2 s, 4 s, ...) and rejects with the failure of the last
  request: the transport error, the status of a response that is not a success, or the
  error of a body that does not decode.  When some request succeeds it resolves to the
  decoded body of the first response that does and sends nothing after it.
\<close>

theorem fetchWithRetry_bounded_retry:
  assumes "1 \<le> m"
  shows "requests (snd (fetchWithRetry net u m)) \<le> nat m \<and>
    ((\<forall>j\<in>{1..m}. \<not> succeeds (net u (nat j))) \<longrightarrow>
       snd (fetchWithRetry net u m) = schedule u 1 m \<and>
       requests (schedule u 1 m) = nat m \<and>
       (\<exists>e. fst (fetchWithRetry net u m) = Inl e) \<and>
       (\<forall>e. net u (nat m) = Rejected e \<longrightarrow> fst (fetchWithRetry net u m) = Inl e) \<and>
       (\<forall>r. net u (nat m) = Resolved r \<longrightarrow> \<not> resp_ok r \<longrightarrow>
            fst (fetchWithRetry net u m) =
              Inl (HttpError (resp_status r) (resp_statusText r))) \<and>
       (\<forall>r e. net u (nat m) = Resolved r \<longrightarrow> resp_ok r \<longrightarrow> resp_json r = Inl e \<longrightarrow>
            fst (fetchWithRetry net u m) = Inl e)) \<and>
    ((\<exists>j\<in>{1..m}. succeeds (net u (nat j))) \<longrightarrow>
       (\<exists>k\<in>{1..m}. \<exists>r v. (\<forall>j\<in>{1..<k}. \<not> succeeds (net u (nat j))) \<and>
            net u (nat k) = Resolved r \<and> resp_ok r \<and> resp_json r = Inr v \<and>
            fetchWithRetry net u m = (Inr v, schedule u 1 k) \<and>
            requests (schedule u 1 k) = nat k))"
proof -
  have fails: "snd (fetchWithRetry net u m) = schedule u 1 m \<and>
       requests (schedule u 1 m) = nat m \<and>
       (\<exists>e. fst (fetchWithRetry net u m) = Inl e) \<and>
       (\<forall>e. net u (nat m) = Rejected e \<longrightarrow> fst (fetchWithRetry net u m) = Inl e) \<and>
       (\<forall>r. net u (nat m) = Resolved r \<longrightarrow> \<not> resp_ok r \<longrightarrow>
            fst (fetchWithRetry net u m) =
              Inl (HttpError (resp_status r) (resp_statusText r))) \<and>
       (\<forall>r e. net u (nat m) = Resolved r \<longrightarrow> resp_ok r \<longrightarrow> resp_json r = Inl e \<longrightarrow>
            fst (fetchWithRetry net u m) = Inl e)"
    if all: "\<forall>j\<in>{1..m}. \<not> succeeds (net u (nat j))"
  proof -
    note run = fetchWithRetry_all_fail [of m net u, OF assms all]
    have "fst (fetchWithRetry net u m) = attempt_request (net u (nat m))"
      and "snd (fetchWithRetry net u m) = schedule u 1 m"
      by (simp_all add: run(1))
    then show ?thesis
      using run(2) assms
      by (auto simp: requests_schedule attempt_request_Rejected attempt_request_status
            attempt_request_body)
  qed
  have wins: "\<exists>k\<in>{1..m}. \<exists>r v. (\<forall>j\<in>{1..<k}. \<not> succeeds (net u (nat j))) \<and>
            net u (nat k) = Resolved r \<and> resp_ok r \<and> resp_json r = Inr v \<and>
            fetchWithRetry net u m = (Inr v, schedule u 1 k) \<and>
            requests (schedule u 1 k) = nat k"
    if some: "\<exists>j\<in>{1..m}. succeeds (net u (nat j))"
  proof -
    from fetchWithRetry_first_success [of m net u] some obtain k r v where
      "k \<in> {1..m}" "\<forall>j\<in>{1..<k}. \<not> succeeds (net u (nat j))"
      "net u (nat k) = Resolved r" "resp_ok r" "resp_json r = Inr v"
      "fetchWithRetry net u m = (Inr v, schedule u 1 k)"
      by blast
    moreover from this have "requests (schedule u 1 k) = nat k"
      by (simp add: requests_schedule)
    ultimately show ?thesis by blast
  qed
  have "requests (snd (fetchWithRetry net u m)) \<le> nat m"
  proof (cases "\<exists>j\<in>{1..m}. succeeds (net u (nat j))")
    case True
    from wins [OF True] show ?thesis by auto
  next
    case False
    then have "\<forall>j\<in>{1..m}. \<not> succeeds (net u (nat j))" by simp
    from fails [OF this] show ?thesis by auto
  qed
  with fails wins show ?thesis by blast
qed

lemma schedule_1_3:
  "schedule u 1 3 = [Fetch u, Wait 1000, Fetch u, Wait 2000, Fetch u]"
  by (simp add: schedule_step schedule_single)

theorem fetchWithRetry_bounded_retry_witness:
  "(1::int) \<le> 3 \<and>
   fetchWithRetry dead_net ''u'' 3 =
     (Inl (HttpError 503 ''Service Unavailable''),
      [Fetch ''u'', Wait 1000, Fetch ''u'', Wait 2000, Fetch ''u'']) \<and>
   fetchWithRetry garbled_net ''u'' 3 =
     (Inl SyntaxError,
      [Fetch ''u'', Wait 1000, Fetch ''u'', Wait 2000, Fetch ''u'']) \<and>
   fetchWithRetry flaky_net ''u'' 3 =
     (Inr (Obj [(''resources'', Obj [])]),
      [Fetch ''u'', Wait 1000, Fetch ''u'', Wait 2000, Fetch ''u''])"
proof -
  have one: "(1::int) \<le> 3" by simp
  have dead: "\<forall>j\<in>{1..3::int}. \<not> succeeds (dead_net ''u'' (nat j))"
    by (simp add: succeeds_def dead_net_def)
  have garbled: "\<forall>j\<in>{1..3::int}. \<not> succeeds (garbled_net ''u'' (nat j))"
    by (simp add: succeeds_def garbled_net_def)
  have flaky: "\<exists>j\<in>{1..3::int}. succeeds (flaky_net ''u'' (nat j))"
    by (rule bexI [of _ 3]) (simp_all add: succeeds_def flaky_net_def)
  from fetchWithRetry_bounded_retry [OF one, of dead_net "''u''"] dead
  have "snd (fetchWithRetry dead_net ''u'' 3) = schedule ''u'' 1 3"
    and "fst (fetchWithRetry dead_net ''u'' 3) = Inl (HttpError 503 ''Service Unavailable'')"
    by (simp_all add: dead_net_def)
  then have d: "fetchWithRetry dead_net ''u'' 3 =
     (Inl (HttpError 503 ''Service Unavailable''),
      [Fetch ''u'', Wait 1000, Fetch ''u'', Wait 2000, Fetch ''u''])"
    by (simp add: prod_eq_iff schedule_1_3)
  from fetchWithRetry_bounded_retry [OF one, of garbled_net "''u''"] garbled
  have "snd (fetchWithRetry garbled_net ''u'' 3) = schedule ''u'' 1 3"
    and "fst (fetchWithRetry garbled_net ''u'' 3) = Inl SyntaxError"
    by (simp_all add: garbled_net_def)
  then have g: "fetchWithRetry garbled_net ''u'' 3 =
     (Inl SyntaxError,
      [Fetch ''u'', Wait 1000, Fetch ''u'', Wait 2000, Fetch ''u''])"
    by (simp add: prod_eq_iff schedule_1_3)
  from fetchWithRetry_bounded_retry [OF one, of flaky_net "''u''"] flaky
  obtain k r v where k: "k \<in> {1..3}" and
    r: "flaky_net ''u'' (nat k) = Resolved r" "resp_json r = Inr v" and
    run: "fetchWithRetry flaky_net ''u'' 3 = (Inr v, schedule ''u'' 1 k)"
    by blast
  from k r(1) have "k = 3"
    by (auto simp: flaky_net_def split: if_splits)
  with r have "v = Obj [(''resources'', Obj [])]"
    by (auto simp: flaky_net_def)
  with run \<open>k = 3\<close> have "fetchWithRetry flaky_net ''u'' 3 =
     (Inr (Obj [(''resources'', Obj [])]),
      [Fetch ''u'', Wait 1000, Fetch ''u'', Wait 2000, Fetch ''u''])"
    by (simp add: schedule_1_3)
  with d g show ?thesis by simp
qed

text \<open>
  C10: with \<open>maxRetries \<le> 0\<close> the loop body never runs: no request is sent and the promise
  resolves to \<^verbatim>\<open>undefined\<close>, which is neither a JSON value nor a rejection.
\<close>

theorem fetchWithRetry_no_attempts:
  "maxRetries \<le> 0 \<Longrightarrow>
     fetchWithRetry net u maxRetries = (Inr Undefined, []) \<and>
     \<not> is_json Undefined \<and> (\<forall>e. fst (fetchWithRetry net u maxRetries) \<noteq> Inl e)"
  by (simp add: fetchWithRetry_def fetchWithRetry_loop_exit)

theorem fetchWithRetry_no_attempts_witness:
  "(0::int) \<le> 0 \<and> fetchWithRetry dead_net ''u'' 0 = (Inr Undefined, [])"
  using fetchWithRetry_no_attempts [of 0 dead_net "''u''"] by simp

section \<open>Properties of the sort\<close>

lemma positive_minus_num:
  "a \<noteq> NaN \<Longrightarrow> b \<noteq> NaN \<Longrightarrow> positive (minus_num a b) \<longleftrightarrow> \<not> num_le a b"
  by (cases a; cases b) auto

lemma positive_minus_num_neq: "positive (minus_num a b) \<Longrightarrow> a \<noteq> b"
  by (cases a; cases b) auto

lemma num_le_trans: "num_le a b \<Longrightarrow> num_le b c \<Longrightarrow> num_le a c"
  by (cases a; cases b; cases c) auto

lemma num_le_total: "a \<noteq> NaN \<Longrightarrow> b \<noteq> NaN \<Longrightarrow> num_le a b \<or> num_le b a"
  by (cases a; cases b) auto

lemma set_sort_insert: "set (sort_insert cmp x ys) = insert x (set ys)"
  by (induction ys) auto

lemma length_sort_insert: "length (sort_insert cmp x ys) = Suc (length ys)"
  by (induction ys) auto

lemma set_stable_sort: "set (stable_sort cmp xs) = set xs"
  by (induction xs) (simp_all add: stable_sort_def set_sort_insert)

lemma length_stable_sort: "length (stable_sort cmp xs) = length xs"
  by (induction xs) (simp_all add: stable_sort_def length_sort_insert)

lemma stable_sort_Nil_iff: "stable_sort cmp xs = [] \<longleftrightarrow> xs = []"
  using length_stable_sort [of cmp xs] by (metis length_0_conv)

lemma ascending_sort_insert:
  assumes "ascending ys" and "priceMin x \<noteq> NaN" and "\<forall>y\<in>set ys. priceMin y \<noteq> NaN"
  shows "ascending (sort_insert compare_priceMin x ys)"
  using assms
proof (induction ys)
  case Nil
  then show ?case by (simp add: ascending_def)
next
  case (Cons y ys)
  show ?case
  proof (cases "positive (compare_priceMin x y)")
    case True
    then have yx: "num_le (priceMin y) (priceMin x)"
      using Cons.prems num_le_total [of "priceMin x" "priceMin y"]
      by (auto simp: compare_priceMin_def positive_minus_num)
    have "ascending (sort_insert compare_priceMin x ys)"
      using Cons by (simp add: ascending_def)
    then show ?thesis
      using True yx Cons.prems(1)
      by (auto simp: ascending_def set_sort_insert)
  next
    case False
    then have xy: "num_le (priceMin x) (priceMin y)"
      using Cons.prems by (simp add: compare_priceMin_def positive_minus_num)
    then show ?thesis
      using False Cons.prems(1) by (auto simp: ascending_def intro: num_le_trans)
  qed
qed

lemma ascending_stable_sort:
  "\<forall>r\<in>set xs. priceMin r \<noteq> NaN \<Longrightarrow> ascending (stable_sort compare_priceMin xs)"
proof (induction xs)
  case Nil
  then show ?case by (simp add: stable_sort_def ascending_def)
next
  case (Cons x xs)
  then have "ascending (stable_sort compare_priceMin xs)" by simp
  then have "ascending (sort_insert compare_priceMin x (stable_sort compare_priceMin xs))"
    using Cons.prems by (intro ascending_sort_insert) (simp_all add: set_stable_sort)
  then show ?case by (simp add: stable_sort_def)
qed

lemma filter_sort_insert_other:
  "\<not> P x \<Longrightarrow> filter P (sort_insert cmp x ys) = filter P ys"
  by (induction ys) auto

lemma filter_sort_insert_same:
  "filter (\<lambda>r. priceMin r = priceMin x) (sort_insert compare_priceMin x ys) =
     x # filter (\<lambda>r. priceMin r = priceMin x) ys"
proof (induction ys)
  case Nil
  then show ?case by simp
next
  case (Cons y ys)
  then show ?case
    using positive_minus_num_neq [of "priceMin x" "priceMin y"]
    by (auto simp: compare_priceMin_def)
qed

lemma stable_sort_stable:
  "filter (\<lambda>r. priceMin r = p) (stable_sort compare_priceMin xs) = filter (\<lambda>r. priceMin r = p) xs"
proof (induction xs)
  case Nil
  then show ?case by (simp add: stable_sort_def)
next
  case (Cons x xs)
  show ?case
  proof (cases "priceMin x = p")
    case True
    then show ?thesis
      using Cons filter_sort_insert_same [of x "stable_sort compare_priceMin xs"]
      by (simp add: stable_sort_def)
  next
    case False
    then show ?thesis
      using Cons by (simp add: stable_sort_def filter_sort_insert_other)
  qed
qed

lemma consistent_zero_refl: "x \<noteq> NaN \<Longrightarrow> is_zero (minus_num x x)"
  by (cases x) (auto simp: is_zero_def)

lemma consistent_zero_sym:
  "x \<noteq> NaN \<Longrightarrow> y \<noteq> NaN \<Longrightarrow> is_zero (minus_num x y) \<Longrightarrow> is_zero (minus_num y x)"
  by (cases x; cases y) (auto simp: is_zero_def)

lemma consistent_zero_trans:
  "x \<noteq> NaN \<Longrightarrow> y \<noteq> NaN \<Longrightarrow> z \<noteq> NaN \<Longrightarrow>
     is_zero (minus_num x y) \<Longrightarrow> is_zero (minus_num y z) \<Longrightarrow> is_zero (minus_num x z)"
  by (cases x; cases y; cases z) (auto simp: is_zero_def)

lemma consistent_negative_trans:
  "negative (minus_num x y) \<Longrightarrow> negative (minus_num y z) \<Longrightarrow> negative (minus_num x z)"
  by (cases x; cases y; cases z) auto

lemma consistent_positive_trans:
  "positive (minus_num x y) \<Longrightarrow> positive (minus_num y z) \<Longrightarrow> positive (minus_num x z)"
  by (cases x; cases y; cases z) auto

lemma consistent_prices:
  assumes "\<forall>r\<in>set xs. priceMin r \<noteq> NaN"
  shows "consistent compare_priceMin xs"
  unfolding consistent_def compare_priceMin_def
  using assms
  by (blast intro: consistent_zero_refl consistent_zero_sym consistent_zero_trans
        consistent_negative_trans consistent_positive_trans)

lemma set_array_sort: "set (array_sort order cmp xs) = set xs"
proof (cases "consistent cmp xs")
  case True
  then show ?thesis by (simp add: array_sort_def set_stable_sort)
next
  case False
  have "(\<lambda>i. xs ! i) ` {0..<length xs} = set xs"
    by (auto simp: in_set_conv_nth)
  with False show ?thesis by (simp add: array_sort_def)
qed

lemma length_array_sort: "length (array_sort order cmp xs) = length xs"
  by (simp add: array_sort_def length_stable_sort)

lemma array_sort_Nil_iff: "array_sort order cmp xs = [] \<longleftrightarrow> xs = []"
  using length_array_sort [of order cmp xs] by (metis length_0_conv)

lemma ascending_array_sort:
  "\<forall>r\<in>set xs. priceMin r \<noteq> NaN \<Longrightarrow> ascending (array_sort order compare_priceMin xs)"
  by (simp add: array_sort_def consistent_prices ascending_stable_sort)

lemma array_sort_stable:
  "\<forall>r\<in>set xs. priceMin r \<noteq> NaN \<Longrightarrow>
     filter (\<lambda>r. priceMin r = p) (array_sort order compare_priceMin xs) =
       filter (\<lambda>r. priceMin r = p) xs"
  by (simp add: array_sort_def consistent_prices stable_sort_stable)

section \<open>Evaluation on the worked network\<close>

lemma proxy_url_0: "proxy_url (stores ! 0) ''Bolt'' = ''https://api.allorigins.win/raw?url=https%3A%2F%2Fplayerscandc.com%2Fsearch%2Fsuggest.json%3Fq%3DBolt%26resources%5Btype%5D%3Dproduct%26resources%5Blimit%5D%3D10%26section_id%3Dpredictive-search''"
  by code_simp

lemma proxy_url_1: "proxy_url (stores ! 1) ''Bolt'' = ''https://api.allorigins.win/raw?url=https%3A%2F%2Fwww.manalounge.ca%2Fsearch%2Fsuggest.json%3Fq%3DBolt%26resources%5Btype%5D%3Dproduct%26resources%5Blimit%5D%3D10%26section_id%3Dpredictive-search''"
  by code_simp

lemma proxy_url_2: "proxy_url (stores ! 2) ''Bolt'' = ''https://api.allorigins.win/raw?url=https%3A%2F%2Flamoodcomics.ca%2Fsearch%2Fsuggest.json%3Fq%3DBolt%26resources%5Btype%5D%3Dproduct%26resources%5Blimit%5D%3D10%26section_id%3Dpredictive-search''"
  by code_simp

lemma validate_url_Bolt:
  "''https://api.scryfall.com/cards/named?exact='' @ encodeURIComponent (trim ''Bolt'') =
   ''https://api.scryfall.com/cards/named?exact=Bolt''"
  by code_simp

lemma stores_list: "stores = [stores ! 0, stores ! 1, stores ! 2]"
  by (simp add: stores_def)

lemma bolt_net_0: "bolt_net a b c (proxy_url (stores ! 0) ''Bolt'') = (\<lambda>k. a)"
  by (simp add: bolt_net_def fun_eq_iff)

lemma bolt_net_1: "bolt_net a b c (proxy_url (stores ! 1) ''Bolt'') = (\<lambda>k. b)"
  unfolding bolt_net_def proxy_url_0 proxy_url_1 fun_eq_iff by simp

lemma bolt_net_2: "bolt_net a b c (proxy_url (stores ! 2) ''Bolt'') = (\<lambda>k. c)"
  unfolding bolt_net_def proxy_url_0 proxy_url_1 proxy_url_2 fun_eq_iff by simp

lemma validate_bolt_net:
  "validateCardName (bolt_net a b c) ''Bolt'' =
     (True, [Fetch ''https://api.scryfall.com/cards/named?exact=Bolt''])"
  unfolding validateCardName_def validate_url_Bolt bolt_net_def proxy_url_0 proxy_url_1 proxy_url_2
  by simp

lemma fetchWithRetry_first:
  "attempt_request (net u 1) = Inr v \<Longrightarrow> fetchWithRetry net u 3 = (Inr v, [Fetch u])"
  unfolding fetchWithRetry_def by (subst fetchWithRetry_loop.simps) simp

lemma fetchWithRetry_exhausted:
  assumes "\<forall>j\<in>{1..3::int}. \<not> succeeds (net u (nat j))"
  shows "\<exists>e. fst (fetchWithRetry net u 3) = Inl e"
proof -
  have "fetchWithRetry net u 3 = (attempt_request (net u (nat 3)), schedule u 1 3)"
    unfolding fetchWithRetry_def using assms
    by (intro fetchWithRetry_loop_stops) auto
  moreover have "\<not> succeeds (net u (nat 3))"
    using assms by (rule bspec) simp
  ultimately show ?thesis
    by (auto simp: succeeds_attempt split: sum.splits)
qed

lemma searchStore_constant:
  assumes "net (proxy_url st c) = (\<lambda>k. out)"
  shows "fst (searchStore bi net st c) =
           (case attempt_request out of
              Inl e \<Rightarrow> []
            | Inr data \<Rightarrow>
                (case parse_products bi st c data of Inl e \<Rightarrow> [] | Inr rs \<Rightarrow> rs))"
proof (cases "attempt_request out")
  case (Inr data)
  then have "attempt_request (net (proxy_url st c) 1) = Inr data"
    using assms by simp
  then have "fetchWithRetry net (proxy_url st c) 3 = (Inr data, [Fetch (proxy_url st c)])"
    by (rule fetchWithRetry_first)
  then show ?thesis
    using Inr by (simp add: searchStore_def searchStore_try_def split: sum.splits)
next
  case (Inl e)
  then have "\<forall>j\<in>{1..3::int}. \<not> succeeds (net (proxy_url st c) (nat j))"
    using assms by (simp add: succeeds_attempt)
  then obtain e' where "fst (fetchWithRetry net (proxy_url st c) 3) = Inl e'"
    using fetchWithRetry_exhausted by blast
  then show ?thesis
    using Inl by (simp add: searchStore_def searchStore_try_def)
qed

lemma searchSingleCard_valid:
  assumes "fst (validateCardName net c)"
  shows "fst (searchSingleCard bi net c) =
     \<lparr>cardName = c,
      status = (if concat (map (\<lambda>st. fst (searchStore bi net st c)) stores) = []
                then no_inventory else found),
      results = array_sort (engine_order bi) compare_priceMin
                  (concat (map (\<lambda>st. fst (searchStore bi net st c)) stores))\<rparr>"
  using assms by (simp add: searchSingleCard_def Let_def comp_def)

lemma searchSingleCard_invalid:
  assumes "\<not> fst (validateCardName net c)"
  shows "searchSingleCard bi net c =
     (\<lparr>cardName = c, status = not_found, results = []\<rparr>, snd (validateCardName net c), [])"
  using assms by (simp add: searchSingleCard_def Let_def)

lemma searchStore_bolt_net_0:
  "fst (searchStore bi (bolt_net a b c) (stores ! 0) ''Bolt'') = store_results bi 0 a"
  unfolding store_results_def by (rule searchStore_constant) (rule bolt_net_0)

lemma searchStore_bolt_net_1:
  "fst (searchStore bi (bolt_net a b c) (stores ! 1) ''Bolt'') = store_results bi 1 b"
  unfolding store_results_def by (rule searchStore_constant) (rule bolt_net_1)

lemma searchStore_bolt_net_2:
  "fst (searchStore bi (bolt_net a b c) (stores ! 2) ''Bolt'') = store_results bi 2 c"
  unfolding store_results_def by (rule searchStore_constant) (rule bolt_net_2)

lemma bolt_net_stores:
  "map (\<lambda>st. fst (searchStore bi (bolt_net a b c) st ''Bolt'')) stores =
      [store_results bi 0 a, store_results bi 1 b, store_results bi 2 c]"
  by (subst stores_list)
     (simp only: list.map searchStore_bolt_net_0 searchStore_bolt_net_1 searchStore_bolt_net_2)

lemma searchStore_try_listing:
  assumes "net (proxy_url st c) = (\<lambda>k. listing ps)"
  shows "fst (searchStore_try bi net st c) = parse_products bi st c (listing_body ps)"
proof -
  have "attempt_request (net (proxy_url st c) 1) = Inr (listing_body ps)"
    using assms by (simp add: attempt_request_def listing_def)
  then have "fetchWithRetry net (proxy_url st c) 3 = (Inr (listing_body ps), [Fetch (proxy_url st c)])"
    by (rule fetchWithRetry_first)
  then show ?thesis
    by (simp add: searchStore_try_def)
qed

lemma searchStore_try_bolt_net_0:
  "fst (searchStore_try bi (bolt_net (listing ps) b c) (stores ! 0) ''Bolt'') =
     parse_products bi (stores ! 0) ''Bolt'' (listing_body ps)"
  by (rule searchStore_try_listing) (rule bolt_net_0)

lemma fetchWithRetry_bolt_net_0:
  "fst (fetchWithRetry (bolt_net (listing ps) b c) (proxy_url (stores ! 0) ''Bolt'') 3) =
     Inr (listing_body ps)"
proof -
  have "attempt_request (bolt_net (listing ps) b c (proxy_url (stores ! 0) ''Bolt'') 1) =
      Inr (listing_body ps)"
    unfolding bolt_net_0 by (simp add: attempt_request_def listing_def)
  then have "fetchWithRetry (bolt_net (listing ps) b c) (proxy_url (stores ! 0) ''Bolt'') 3 =
      (Inr (listing_body ps), [Fetch (proxy_url (stores ! 0) ''Bolt'')])"
    by (rule fetchWithRetry_first)
  then show ?thesis by simp
qed

lemma bolt_net_merged:
  "concat (map (\<lambda>st. fst (searchStore bi (bolt_net a b c) st ''Bolt'')) stores) =
      store_results bi 0 a @ store_results bi 1 b @ store_results bi 2 c"
  unfolding bolt_net_stores by simp

lemma searchSingleCard_bolt_net:
  "fst (searchSingleCard bi (bolt_net a b c) ''Bolt'') =
     \<lparr>cardName = ''Bolt'',
      status = (if store_results bi 0 a @ store_results bi 1 b @ store_results bi 2 c = []
                then no_inventory else found),
      results = array_sort (engine_order bi) compare_priceMin
        (store_results bi 0 a @ store_results bi 1 b @ store_results bi 2 c)\<rparr>"
proof -
  have valid: "fst (validateCardName (bolt_net a b c) ''Bolt'')"
    by (simp add: validate_bolt_net)
  show ?thesis
    unfolding searchSingleCard_valid [OF valid] bolt_net_merged by simp
qed

section \<open>Properties of searchSingleCard\<close>

text \<open>
  C1: the status is \<open>not_found\<close> exactly when the validation returned false, and then the
  result list is empty and no store is queried; it is \<open>no_inventory\<close> exactly when the
  validation returned true and the merged list of the stores is empty; it is \<open>found\<close>
  exactly when the merged list, which the sorted result list rearranges, is not empty.
\<close>

theorem searchSingleCard_status:
  "(status (fst (searchSingleCard bi net c)) = not_found \<longleftrightarrow> \<not> fst (validateCardName net c)) \<and>
   (\<not> fst (validateCardName net c) \<longrightarrow>
      results (fst (searchSingleCard bi net c)) = [] \<and>
      snd (searchSingleCard bi net c) = (snd (validateCardName net c), [])) \<and>
   (fst (validateCardName net c) \<longrightarrow>
      results (fst (searchSingleCard bi net c)) =
        array_sort (engine_order bi) compare_priceMin
          (concat (map (\<lambda>st. fst (searchStore bi net st c)) stores))) \<and>
   (status (fst (searchSingleCard bi net c)) = no_inventory \<longleftrightarrow>
      fst (validateCardName net c) \<and>
      concat (map (\<lambda>st. fst (searchStore bi net st c)) stores) = []) \<and>
   (status (fst (searchSingleCard bi net c)) = found \<longleftrightarrow>
      fst (validateCardName net c) \<and>
      concat (map (\<lambda>st. fst (searchStore bi net st c)) stores) \<noteq> []) \<and>
   (status (fst (searchSingleCard bi net c)) = found \<longleftrightarrow>
      results (fst (searchSingleCard bi net c)) \<noteq> [])"
proof (cases "fst (validateCardName net c)")
  case True
  show ?thesis
    unfolding searchSingleCard_valid [OF True] using True
    by (simp add: array_sort_Nil_iff del: concat_eq_Nil_conv)
next
  case False
  show ?thesis
    unfolding searchSingleCard_invalid [OF False] using False by simp
qed

lemma validate_dead_net: "\<not> fst (validateCardName dead_net c)"
  by (simp add: validateCardName_def dead_net_def)

theorem searchSingleCard_status_witness:
  "status (fst (searchSingleCard example_builtins dead_net ''Bolt'')) = not_found \<and>
   snd (snd (searchSingleCard example_builtins dead_net ''Bolt'')) = [] \<and>
   status (fst (searchSingleCard example_builtins
     (bolt_net (listing []) (listing []) (listing [])) ''Bolt'')) = no_inventory \<and>
   status (fst (searchSingleCard example_builtins
     (bolt_net (listing [product_json ''Lightning Bolt'' ''1.00'' ''1.00''])
        (listing [product_json ''Lightning Bolt'' ''2.00'' ''2.00'']) (listing [])) ''Bolt'')) = found"
proof -
  have empty: "store_results example_builtins 0 (listing []) @
      store_results example_builtins 1 (listing []) @
      store_results example_builtins 2 (listing []) = []"
    by code_simp
  have some: "store_results example_builtins 0 (listing [product_json ''Lightning Bolt'' ''1.00'' ''1.00'']) @
      store_results example_builtins 1 (listing [product_json ''Lightning Bolt'' ''2.00'' ''2.00'']) @
      store_results example_builtins 2 (listing []) \<noteq> []"
    by code_simp
  have dead: "status (fst (searchSingleCard example_builtins dead_net ''Bolt'')) = not_found \<and>
      snd (snd (searchSingleCard example_builtins dead_net ''Bolt'')) = []"
    using searchSingleCard_status [of example_builtins dead_net "''Bolt''"]
    by (simp add: validate_dead_net)
  have none: "status (fst (searchSingleCard example_builtins
      (bolt_net (listing []) (listing []) (listing [])) ''Bolt'')) = no_inventory"
    using searchSingleCard_status [of example_builtins
        "bolt_net (listing []) (listing []) (listing [])" "''Bolt''"] empty
    unfolding bolt_net_merged by (simp add: validate_bolt_net)
  have "status (fst (searchSingleCard example_builtins
     (bolt_net (listing [product_json ''Lightning Bolt'' ''1.00'' ''1.00''])
        (listing [product_json ''Lightning Bolt'' ''2.00'' ''2.00'']) (listing [])) ''Bolt'')) = found"
    using searchSingleCard_status [of example_builtins
        "bolt_net (listing [product_json ''Lightning Bolt'' ''1.00'' ''1.00''])
        (listing [product_json ''Lightning Bolt'' ''2.00'' ''2.00'']) (listing [])" "''Bolt''"] some
    unfolding bolt_net_merged by (simp add: validate_bolt_net)
  with dead none show ?thesis by simp
qed

text \<open>
  C3, as the code has it: when no minimum price of the merged list is \<open>NaN\<close>, the result
  list is ascending by minimum price and holds the merged list's results of each price
  in their merged (store iteration) order.
\<close>

theorem merged_results_sorted:
  assumes "fst (validateCardName net c)"
    and "\<forall>r\<in>set (concat (map (\<lambda>st. fst (searchStore bi net st c)) stores)). priceMin r \<noteq> NaN"
  shows "ascending (results (fst (searchSingleCard bi net c))) \<and>
         (\<forall>p. filter (\<lambda>r. priceMin r = p) (results (fst (searchSingleCard bi net c))) =
              filter (\<lambda>r. priceMin r = p)
                (concat (map (\<lambda>st. fst (searchStore bi net st c)) stores)))"
  unfolding searchSingleCard_valid [OF assms(1)]
  using assms(2) by (simp add: array_sort_stable ascending_array_sort del: set_concat)

theorem merged_results_sorted_witness:
  "fst (validateCardName
     (bolt_net (listing [product_json ''Lightning Bolt'' ''5.00'' ''5.00''])
        (listing [product_json ''Lightning Bolt'' ''1.50'' ''1.50''])
        (listing [product_json ''Lightning Bolt'' ''3.00'' ''3.00''])) ''Bolt'') \<and>
   ascending (results (fst (searchSingleCard example_builtins
     (bolt_net (listing [product_json ''Lightning Bolt'' ''5.00'' ''5.00''])
        (listing [product_json ''Lightning Bolt'' ''1.50'' ''1.50''])
        (listing [product_json ''Lightning Bolt'' ''3.00'' ''3.00''])) ''Bolt''))) \<and>
   map (\<lambda>r. (store r, priceMin r)) (results (fst (searchSingleCard example_builtins
     (bolt_net (listing [product_json ''Lightning Bolt'' ''5.00'' ''5.00''])
        (listing [product_json ''Lightning Bolt'' ''1.50'' ''1.50''])
        (listing [product_json ''Lightning Bolt'' ''3.00'' ''3.00''])) ''Bolt''))) =
     [(''Mana Lounge'', Fin (3 / 2)), (''Lamood Comics'', Fin 3), (''Players C&C'', Fin 5)] \<and>
   map (\<lambda>r. (store r, priceMin r)) (results (fst (searchSingleCard example_builtins
     (bolt_net (listing [product_json ''Lightning Bolt'' ''2.00'' ''2.00''])
        (listing [product_json ''Lightning Bolt'' ''1.00'' ''1.00''])
        (listing [product_json ''Lightning Bolt'' ''2.00'' ''2.00''])) ''Bolt''))) =
     [(''Mana Lounge'', Fin 1), (''Players C&C'', Fin 2), (''Lamood Comics'', Fin 2)]"
proof -
  let ?net = "bolt_net (listing [product_json ''Lightning Bolt'' ''5.00'' ''5.00''])
        (listing [product_json ''Lightning Bolt'' ''1.50'' ''1.50''])
        (listing [product_json ''Lightning Bolt'' ''3.00'' ''3.00''])"
  let ?ties = "bolt_net (listing [product_json ''Lightning Bolt'' ''2.00'' ''2.00''])
        (listing [product_json ''Lightning Bolt'' ''1.00'' ''1.00''])
        (listing [product_json ''Lightning Bolt'' ''2.00'' ''2.00''])"
  have valid: "fst (validateCardName ?net ''Bolt'')"
    by (simp add: validate_bolt_net)
  have prices: "map priceMin (store_results example_builtins 0 (listing [product_json ''Lightning Bolt'' ''5.00'' ''5.00'']) @
      store_results example_builtins 1 (listing [product_json ''Lightning Bolt'' ''1.50'' ''1.50'']) @
      store_results example_builtins 2 (listing [product_json ''Lightning Bolt'' ''3.00'' ''3.00''])) =
      [Fin 5, Fin (3 / 2), Fin 3]"
    by code_simp
  have "\<forall>x\<in>set (map priceMin (concat (map (\<lambda>st. fst (searchStore example_builtins ?net st ''Bolt'')) stores))). x \<noteq> NaN"
    unfolding bolt_net_merged prices by simp
  then have numbers: "\<forall>r\<in>set (concat (map (\<lambda>st. fst (searchStore example_builtins ?net st ''Bolt'')) stores)).
      priceMin r \<noteq> NaN"
    by (simp del: set_concat)
  have tie_valid: "fst (validateCardName ?ties ''Bolt'')"
    by (simp add: validate_bolt_net)
  have tie_merged: "map (\<lambda>r. (store r, priceMin r))
      (store_results example_builtins 0 (listing [product_json ''Lightning Bolt'' ''2.00'' ''2.00'']) @
       store_results example_builtins 1 (listing [product_json ''Lightning Bolt'' ''1.00'' ''1.00'']) @
       store_results example_builtins 2 (listing [product_json ''Lightning Bolt'' ''2.00'' ''2.00''])) =
      [(''Players C&C'', Fin 2), (''Mana Lounge'', Fin 1), (''Lamood Comics'', Fin 2)]"
    by code_simp
  have "\<forall>x\<in>set (map (\<lambda>r. priceMin r) (concat (map (\<lambda>st. fst (searchStore example_builtins ?ties st ''Bolt'')) stores))). x \<noteq> NaN"
    unfolding bolt_net_merged using arg_cong [OF tie_merged, of "map snd"]
    by (simp add: comp_def)
  then have tie_numbers: "\<forall>r\<in>set (concat (map (\<lambda>st. fst (searchStore example_builtins ?ties st ''Bolt'')) stores)).
      priceMin r \<noteq> NaN"
    by (simp del: set_concat)
  from merged_results_sorted [OF valid numbers]
  have "ascending (results (fst (searchSingleCard example_builtins ?net ''Bolt'')))"
    by blast
  moreover have "map (\<lambda>r. (store r, priceMin r)) (results (fst (searchSingleCard example_builtins ?net ''Bolt''))) =
     [(''Mana Lounge'', Fin (3 / 2)), (''Lamood Comics'', Fin 3), (''Players C&C'', Fin 5)]"
    unfolding searchSingleCard_bolt_net by code_simp
  moreover from merged_results_sorted [OF tie_valid tie_numbers]
  have "filter (\<lambda>r. priceMin r = Fin 2) (results (fst (searchSingleCard example_builtins ?ties ''Bolt''))) =
      filter (\<lambda>r. priceMin r = Fin 2)
        (concat (map (\<lambda>st. fst (searchStore example_builtins ?ties st ''Bolt'')) stores))"
    by blast
  moreover have "map (\<lambda>r. (store r, priceMin r)) (results (fst (searchSingleCard example_builtins ?ties ''Bolt''))) =
     [(''Mana Lounge'', Fin 1), (''Players C&C'', Fin 2), (''Lamood Comics'', Fin 2)]"
    unfolding searchSingleCard_bolt_net by code_simp
  ultimately show ?thesis using valid by simp
qed

text \<open>
  With the prices 2, \<open>NaN\<close>, 1 from one store the comparator is not consistent, the array
  stays as it is, and the result of price 2 comes before the result of price 1.
\<close>

theorem merged_results_sorted_counterexample:
  "fst (validateCardName
     (bolt_net (listing [product_json ''Lightning Bolt'' ''2'' ''2'',
                         product_json ''Lightning Bolt'' ''N/A'' ''2'',
                         product_json ''Lightning Bolt'' ''1'' ''2''])
        (listing []) (listing [])) ''Bolt'') \<and>
   map priceMin (results (fst (searchSingleCard example_builtins
     (bolt_net (listing [product_json ''Lightning Bolt'' ''2'' ''2'',
                         product_json ''Lightning Bolt'' ''N/A'' ''2'',
                         product_json ''Lightning Bolt'' ''1'' ''2''])
        (listing []) (listing [])) ''Bolt''))) = [Fin 2, NaN, Fin 1] \<and>
   num_le (Fin 1) (Fin 2) \<and> \<not> num_le (Fin 2) (Fin 1)"
proof -
  have "map priceMin (results (fst (searchSingleCard example_builtins
     (bolt_net (listing [product_json ''Lightning Bolt'' ''2'' ''2'',
                         product_json ''Lightning Bolt'' ''N/A'' ''2'',
                         product_json ''Lightning Bolt'' ''1'' ''2''])
        (listing []) (listing [])) ''Bolt''))) = [Fin 2, NaN, Fin 1]"
    unfolding searchSingleCard_bolt_net by code_simp
  then show ?thesis
    by (simp add: validate_bolt_net)
qed

section \<open>Properties of the store query\<close>

lemma filter_throwing_Inr:
  "filter_throwing p xs = Inr ys \<Longrightarrow> ys = filter (\<lambda>x. p x = Inr True) xs"
  by (induction xs arbitrary: ys) (auto split: sum.splits if_splits)

lemma map_throwing_Inr:
  "map_throwing f xs = Inr ys \<Longrightarrow> list_all2 (\<lambda>x y. f x = Inr y) xs ys"
  by (induction xs arbitrary: ys) (auto split: sum.splits)


lemma startsWith_iff: "startsWith s p \<longleftrightarrow> (\<exists>b. s = p @ b)"
  by (induction s p rule: startsWith.induct) auto

lemma includes_str_iff: "includes_str s p \<longleftrightarrow> (\<exists>a b. s = a @ p @ b)"
proof (induction s)
  case Nil
  then show ?case by simp
next
  case (Cons c cs)
  show ?case
  proof
    assume "includes_str (c # cs) p"
    then consider "startsWith (c # cs) p" | "includes_str cs p" by auto
    then show "\<exists>a b. c # cs = a @ p @ b"
    proof cases
      case 1
      then obtain b where "c # cs = p @ b" by (auto simp: startsWith_iff)
      then have "c # cs = [] @ p @ b" by simp
      then show ?thesis by blast
    next
      case 2
      then obtain a b where "cs = a @ p @ b" using Cons.IH by auto
      then have "c # cs = (c # a) @ p @ b" by simp
      then show ?thesis by blast
    qed
  next
    assume "\<exists>a b. c # cs = a @ p @ b"
    then obtain a b where ab: "c # cs = a @ p @ b" by blast
    show "includes_str (c # cs) p"
    proof (cases a)
      case Nil
      then have "startsWith (c # cs) p" using ab by (auto simp: startsWith_iff)
      then show ?thesis by simp
    next
      case (Cons a0 as)
      then have "cs = as @ p @ b" using ab by simp
      then have "includes_str cs p" using Cons.IH by blast
      then show ?thesis by simp
    qed
  qed
qed

lemma is_available_iff: "is_available p = Inr True \<longleftrightarrow> get_prop p ''available'' = Inr (Bool True)"
  by (auto simp: is_available_def split: sum.splits)

lemma title_matches_iff:
  "title_matches c p = Inr True \<longleftrightarrow>
     (\<exists>t s a b. get_prop p ''title'' = Inr t \<and> or_else t (Str []) = Str s \<and>
        toLowerCase s = a @ toLowerCase c @ b)"
  by (auto simp: title_matches_def Let_def includes_str_iff split: sum.splits jsval.splits)

lemma parse_products_Inr:
  assumes "parse_products bi st c data = Inr rs"
  shows "\<exists>ps. array_elements (extract_products data) = Inr ps \<and>
     list_all2 (\<lambda>p r. to_result bi st p = Inr r)
       (filter (\<lambda>p. is_available p = Inr True \<and> title_matches c p = Inr True) ps) rs"
proof -
  from assms obtain ps avail matching where
    ps: "array_elements (extract_products data) = Inr ps" and
    avail: "filter_throwing is_available ps = Inr avail" and
    matching: "filter_throwing (title_matches c) avail = Inr matching" and
    rs: "map_throwing (to_result bi st) matching = Inr rs"
    by (auto simp: parse_products_def split: sum.splits)
  have "matching = filter (\<lambda>p. is_available p = Inr True \<and> title_matches c p = Inr True) ps"
    using filter_throwing_Inr [OF avail] filter_throwing_Inr [OF matching]
    by (simp add: conj_commute)
  with ps map_throwing_Inr [OF rs] show ?thesis by blast
qed

lemma searchStore_cases:
  "(\<exists>e. fst (searchStore_try bi net st c) = Inl e \<and> fst (searchStore bi net st c) = []) \<or>
   (\<exists>rs data. fst (searchStore_try bi net st c) = Inr rs \<and> fst (searchStore bi net st c) = rs \<and>
      fst (fetchWithRetry net (proxy_url st c) 3) = Inr data \<and>
      parse_products bi st c data = Inr rs)"
  by (auto simp: searchStore_def searchStore_try_def Let_def split: sum.splits)


text \<open>
  C5, as the code has it: when the store's query raises no exception, the result list is,
  in order, the normalization of exactly those products of the response whose
  \<^verbatim>\<open>available\<close> is \<^verbatim>\<open>true\<close> and whose lower-cased title (the empty string for a missing
  title) contains the lower-cased card name; when it raises one, the result list is empty.
\<close>

theorem searchStore_filters:
  "(fst (searchStore_try bi net st c) = Inr rs \<longrightarrow>
      (\<exists>data ps. fst (fetchWithRetry net (proxy_url st c) 3) = Inr data \<and>
         array_elements (extract_products data) = Inr ps \<and>
         fst (searchStore bi net st c) = rs \<and>
         list_all2 (\<lambda>p r. to_result bi st p = Inr r)
           (filter (\<lambda>p. get_prop p ''available'' = Inr (Bool True) \<and>
                       (\<exists>t s a b. get_prop p ''title'' = Inr t \<and>
                          or_else t (Str []) = Str s \<and>
                          toLowerCase s = a @ toLowerCase c @ b)) ps) rs)) \<and>
   (\<forall>e. fst (searchStore_try bi net st c) = Inl e \<longrightarrow> fst (searchStore bi net st c) = [])"
proof -
  have kept: "\<exists>data ps. fst (fetchWithRetry net (proxy_url st c) 3) = Inr data \<and>
         array_elements (extract_products data) = Inr ps \<and>
         fst (searchStore bi net st c) = rs \<and>
         list_all2 (\<lambda>p r. to_result bi st p = Inr r)
           (filter (\<lambda>p. get_prop p ''available'' = Inr (Bool True) \<and>
                       (\<exists>t s a b. get_prop p ''title'' = Inr t \<and>
                          or_else t (Str []) = Str s \<and>
                          toLowerCase s = a @ toLowerCase c @ b)) ps) rs"
    if tried: "fst (searchStore_try bi net st c) = Inr rs"
  proof -
    from searchStore_cases [of bi net st c] tried obtain data where
      rs: "fst (searchStore bi net st c) = rs" and
      data: "fst (fetchWithRetry net (proxy_url st c) 3) = Inr data" and
      parse: "parse_products bi st c data = Inr rs"
      by auto
    from parse_products_Inr [OF parse] rs data show ?thesis
      unfolding is_available_iff title_matches_iff by blast
  qed
  have raised: "fst (searchStore bi net st c) = []"
    if "fst (searchStore_try bi net st c) = Inl e" for e
    using that by (simp add: searchStore_def)
  from kept raised show ?thesis by blast
qed


theorem searchStore_filters_witness:
  "fst (searchStore_try example_builtins
     (bolt_net (listing [product_json ''Lightning Bolt'' ''1.00'' ''1.00'',
                         product_json ''Counterspell'' ''2.00'' ''2.00'',
                         Obj [(''available'', Bool False), (''title'', Str ''Lightning Bolt'')],
                         product_json ''Bolt of Lightning'' ''3.00'' ''4.00''])
        (listing []) (listing [])) (stores ! 0) ''Bolt'') =
     Inr [\<lparr>store = ''Players C&C'', name = Str ''Lightning Bolt'', priceMin = Fin 1,
           priceMax = Fin 1, availability = ''In Stock'',
           url = ''https://playerscandc.com/products/bolt'', image = Undefined,
           condition = ''NM''\<rparr>,
          \<lparr>store = ''Players C&C'', name = Str ''Bolt of Lightning'', priceMin = Fin 3,
           priceMax = Fin 4, availability = ''In Stock'',
           url = ''https://playerscandc.com/products/bolt'', image = Undefined,
           condition = ''NM''\<rparr>] \<and>
   map name (fst (searchStore example_builtins
     (bolt_net (listing [product_json ''Lightning Bolt'' ''1.00'' ''1.00'',
                         product_json ''Counterspell'' ''2.00'' ''2.00'',
                         Obj [(''available'', Bool False), (''title'', Str ''Lightning Bolt'')],
                         product_json ''Bolt of Lightning'' ''3.00'' ''4.00''])
        (listing []) (listing [])) (stores ! 0) ''Bolt'')) =
     [Str ''Lightning Bolt'', Str ''Bolt of Lightning''] \<and>
   fst (searchStore_try example_builtins
     (bolt_net (listing [product_json ''Lightning Bolt'' ''1.00'' ''1.00'',
                         Obj [(''available'', Bool True), (''title'', Num (Fin 7))]])
        (listing []) (listing [])) (stores ! 0) ''Bolt'') = Inl TypeError \<and>
   fst (searchStore example_builtins
     (bolt_net (listing [product_json ''Lightning Bolt'' ''1.00'' ''1.00'',
                         Obj [(''available'', Bool True), (''title'', Num (Fin 7))]])
        (listing []) (listing [])) (stores ! 0) ''Bolt'') = []"
proof -
  let ?ps = "[product_json ''Lightning Bolt'' ''1.00'' ''1.00'',
              product_json ''Counterspell'' ''2.00'' ''2.00'',
              Obj [(''available'', Bool False), (''title'', Str ''Lightning Bolt'')],
              product_json ''Bolt of Lightning'' ''3.00'' ''4.00'']"
  let ?net = "bolt_net (listing ?ps) (listing []) (listing [])"
  let ?rs = "[\<lparr>store = ''Players C&C'', name = Str ''Lightning Bolt'', priceMin = Fin 1,
           priceMax = Fin 1, availability = ''In Stock'',
           url = ''https://playerscandc.com/products/bolt'', image = Undefined,
           condition = ''NM''\<rparr>,
          \<lparr>store = ''Players C&C'', name = Str ''Bolt of Lightning'', priceMin = Fin 3,
           priceMax = Fin 4, availability = ''In Stock'',
           url = ''https://playerscandc.com/products/bolt'', image = Undefined,
           condition = ''NM''\<rparr>]"
  have "parse_products example_builtins (stores ! 0) ''Bolt'' (listing_body ?ps) = Inr ?rs"
    by code_simp
  then have tried: "fst (searchStore_try example_builtins ?net (stores ! 0) ''Bolt'') = Inr ?rs"
    by (simp only: searchStore_try_bolt_net_0)
  from searchStore_filters [of example_builtins ?net "stores ! 0" "''Bolt''" ?rs] tried
  have kept: "fst (searchStore example_builtins ?net (stores ! 0) ''Bolt'') = ?rs"
    by blast
  let ?qs = "[product_json ''Lightning Bolt'' ''1.00'' ''1.00'',
              Obj [(''available'', Bool True), (''title'', Num (Fin 7))]]"
  let ?bad = "bolt_net (listing ?qs) (listing []) (listing [])"
  have "parse_products example_builtins (stores ! 0) ''Bolt'' (listing_body ?qs) = Inl TypeError"
    by code_simp
  then have thrown: "fst (searchStore_try example_builtins ?bad (stores ! 0) ''Bolt'') = Inl TypeError"
    by (simp only: searchStore_try_bolt_net_0)
  from searchStore_filters [of example_builtins ?bad "stores ! 0" "''Bolt''"] thrown
  have "fst (searchStore example_builtins ?bad (stores ! 0) ''Bolt'') = []"
    by blast
  with tried kept thrown show ?thesis by simp
qed

theorem searchStore_filters_counterexample:
  "get_prop (product_json ''Lightning Bolt'' ''1.00'' ''1.00'') ''available'' = Inr (Bool True) \<and>
   title_matches ''Bolt'' (product_json ''Lightning Bolt'' ''1.00'' ''1.00'') = Inr True \<and>
   fst (fetchWithRetry
     (bolt_net (listing [product_json ''Lightning Bolt'' ''1.00'' ''1.00'', Null])
        (listing []) (listing []))
     (proxy_url (stores ! 0) ''Bolt'') 3) =
     Inr (listing_body [product_json ''Lightning Bolt'' ''1.00'' ''1.00'', Null]) \<and>
   fst (searchStore example_builtins
     (bolt_net (listing [product_json ''Lightning Bolt'' ''1.00'' ''1.00'', Null])
        (listing []) (listing []))
     (stores ! 0) ''Bolt'') = []"
proof -
  let ?ps = "[product_json ''Lightning Bolt'' ''1.00'' ''1.00'', Null]"
  let ?net = "bolt_net (listing ?ps) (listing []) (listing [])"
  have a: "get_prop (product_json ''Lightning Bolt'' ''1.00'' ''1.00'') ''available'' = Inr (Bool True)"
    by (simp add: get_prop_def product_json_def)
  have t: "title_matches ''Bolt'' (product_json ''Lightning Bolt'' ''1.00'' ''1.00'') = Inr True"
    by code_simp
  have f: "fst (fetchWithRetry ?net (proxy_url (stores ! 0) ''Bolt'') 3) = Inr (listing_body ?ps)"
    by (rule fetchWithRetry_bolt_net_0)
  have "store_results example_builtins 0 (listing ?ps) = []"
    by code_simp
  then have "fst (searchStore example_builtins ?net (stores ! 0) ''Bolt'') = []"
    by (simp only: searchStore_bolt_net_0)
  with a t f show ?thesis by simp
qed

lemma extract_products_not_array:
  assumes "\<forall>ps. opt_prop (opt_prop (opt_prop data ''resources'') ''results'') ''products'' \<noteq> Arr ps"
  shows "parse_products bi st c data = Inr [] \<or> (\<exists>e. parse_products bi st c data = Inl e)"
proof (cases "truthy (opt_prop (opt_prop (opt_prop data ''resources'') ''results'') ''products'')")
  case True
  then have "array_elements (extract_products data) = Inl TypeError"
    using assms by (auto simp: extract_products_def or_else_def array_elements_def split: jsval.splits)
  then show ?thesis by (simp add: parse_products_def)
next
  case False
  then have "extract_products data = Arr []"
    by (simp add: extract_products_def or_else_def)
  then show ?thesis by (simp add: parse_products_def array_elements_def)
qed

lemma length_concat_sum: "length (concat xss) = sum_list (map length xss)"
  by (induction xss) simp_all

text \<open>
  C4: a response whose \<^verbatim>\<open>resources.results.products\<close> is missing or is not an array gives
  an empty list; so does every exception inside one store's query, the exhaustion of the
  three attempts among them.  The other stores are not affected: for a valid name the
  result list holds every result of every store.
\<close>

theorem searchStore_absorbs_failures:
  "(\<forall>data. fst (fetchWithRetry net (proxy_url st c) 3) = Inr data \<longrightarrow>
      (\<forall>ps. opt_prop (opt_prop (opt_prop data ''resources'') ''results'') ''products'' \<noteq> Arr ps) \<longrightarrow>
      fst (searchStore bi net st c) = []) \<and>
   (\<forall>e. fst (searchStore_try bi net st c) = Inl e \<longrightarrow> fst (searchStore bi net st c) = []) \<and>
   ((\<forall>j\<in>{1..3}. \<not> succeeds (net (proxy_url st c) (nat j))) \<longrightarrow>
      fst (searchStore bi net st c) = []) \<and>
   (fst (validateCardName net c) \<longrightarrow>
      (st \<in> set stores \<longrightarrow>
         set (fst (searchStore bi net st c)) \<subseteq> set (results (fst (searchSingleCard bi net c)))) \<and>
      length (results (fst (searchSingleCard bi net c))) =
        sum_list (map (\<lambda>s. length (fst (searchStore bi net s c))) stores))"
proof -
  have malformed: "fst (searchStore bi net st c) = []"
    if "fst (fetchWithRetry net (proxy_url st c) 3) = Inr data"
      and "\<forall>ps. opt_prop (opt_prop (opt_prop data ''resources'') ''results'') ''products'' \<noteq> Arr ps"
    for data
    using that(1) extract_products_not_array [OF that(2), of bi st c]
    by (auto simp: searchStore_def searchStore_try_def)
  have thrown: "fst (searchStore bi net st c) = []" if "fst (searchStore_try bi net st c) = Inl e" for e
    using that by (simp add: searchStore_def)
  have exhausted: "fst (searchStore bi net st c) = []"
    if "\<forall>j\<in>{1..3}. \<not> succeeds (net (proxy_url st c) (nat j))"
    using fetchWithRetry_exhausted [of net "proxy_url st c"] that
    by (auto simp: searchStore_def searchStore_try_def)
  have merged: "set (fst (searchStore bi net st c)) \<subseteq> set (results (fst (searchSingleCard bi net c)))"
    if "fst (validateCardName net c)" and "st \<in> set stores"
    unfolding searchSingleCard_valid [OF that(1)] using that(2)
    by (auto simp: set_array_sort)
  have count: "length (results (fst (searchSingleCard bi net c))) =
        sum_list (map (\<lambda>s. length (fst (searchStore bi net s c))) stores)"
    if "fst (validateCardName net c)"
    unfolding searchSingleCard_valid [OF that]
    by (simp add: length_array_sort length_concat_sum comp_def)
  from malformed thrown exhausted merged count show ?thesis by blast
qed

theorem searchStore_absorbs_failures_witness:
  "fst (searchStore example_builtins
     (bolt_net (Rejected NetworkError)
        (listing [product_json ''Lightning Bolt'' ''1.00'' ''1.00''])
        (listing [Null]))
     (stores ! 0) ''Bolt'') = [] \<and>
   fst (searchStore example_builtins
     (bolt_net (Rejected NetworkError)
        (listing [product_json ''Lightning Bolt'' ''1.00'' ''1.00''])
        (listing [Null]))
     (stores ! 2) ''Bolt'') = [] \<and>
   fst (searchStore example_builtins
     (bolt_net (Resolved (Response True 200 ''OK''
           (Inr (Obj [(''resources'', Obj [(''results'', Obj [(''products'', Str ''none'')])])]))))
        (listing []) (listing []))
     (stores ! 0) ''Bolt'') = [] \<and>
   map store (results (fst (searchSingleCard example_builtins
     (bolt_net (Rejected NetworkError)
        (listing [product_json ''Lightning Bolt'' ''1.00'' ''1.00''])
        (listing [Null]))
     ''Bolt''))) = [''Mana Lounge'']"
proof -
  let ?net = "bolt_net (Rejected NetworkError)
        (listing [product_json ''Lightning Bolt'' ''1.00'' ''1.00'']) (listing [Null])"
  let ?body = "Obj [(''resources'', Obj [(''results'', Obj [(''products'', Str ''none'')])])]"
  let ?bad = "bolt_net (Resolved (Response True 200 ''OK'' (Inr ?body))) (listing []) (listing [])"
  have "\<forall>j\<in>{1..3}. \<not> succeeds (?net (proxy_url (stores ! 0) ''Bolt'') (nat j))"
    unfolding bolt_net_0 by (simp add: succeeds_attempt attempt_request_def)
  with searchStore_absorbs_failures [of ?net "stores ! 0" "''Bolt''" example_builtins]
  have exhausted: "fst (searchStore example_builtins ?net (stores ! 0) ''Bolt'') = []"
    by blast
  have "parse_products example_builtins (stores ! 2) ''Bolt'' (listing_body [Null]) = Inl TypeError"
    by code_simp
  then have "fst (searchStore_try example_builtins ?net (stores ! 2) ''Bolt'') = Inl TypeError"
    using searchStore_try_listing [of ?net "stores ! 2" "''Bolt''" "[Null]" example_builtins]
    by (simp add: bolt_net_2)
  with searchStore_absorbs_failures [of ?net "stores ! 2" "''Bolt''" example_builtins]
  have thrown: "fst (searchStore example_builtins ?net (stores ! 2) ''Bolt'') = []"
    by blast
  have "attempt_request (?bad (proxy_url (stores ! 0) ''Bolt'') 1) = Inr ?body"
    unfolding bolt_net_0 by (simp add: attempt_request_def)
  then have "fetchWithRetry ?bad (proxy_url (stores ! 0) ''Bolt'') 3 =
      (Inr ?body, [Fetch (proxy_url (stores ! 0) ''Bolt'')])"
    by (rule fetchWithRetry_first)
  moreover have "\<forall>ps. opt_prop (opt_prop (opt_prop ?body ''resources'') ''results'') ''products'' \<noteq> Arr ps"
    by (simp add: opt_prop_def get_prop_def)
  ultimately have malformed: "fst (searchStore example_builtins ?bad (stores ! 0) ''Bolt'') = []"
    using searchStore_absorbs_failures [of ?bad "stores ! 0" "''Bolt''" example_builtins]
    by simp
  have "fst (validateCardName ?net ''Bolt'')"
    by (simp add: validate_bolt_net)
  with searchStore_absorbs_failures [of ?net "stores ! 1" "''Bolt''" example_builtins]
  have "length (results (fst (searchSingleCard example_builtins ?net ''Bolt''))) =
      sum_list (map (\<lambda>s. length (fst (searchStore example_builtins ?net s ''Bolt''))) stores)"
    by blast
  have "map store (results (fst (searchSingleCard example_builtins ?net ''Bolt''))) =
      [''Mana Lounge'']"
    unfolding searchSingleCard_bolt_net by code_simp
  with exhausted thrown malformed show ?thesis by simp
qed







lemma strip_trailing_slash_append: "strip_trailing_slash (b @ ''/'') = b"
  by (simp add: strip_trailing_slash_def)

lemma strip_trailing_slash_none:
  "b = [] \<or> last b \<noteq> CHR ''/'' \<Longrightarrow> strip_trailing_slash b = b"
  by (auto simp: strip_trailing_slash_def)




section \<open>Properties of searchCards\<close>

lemma cardName_searchSingleCard: "cardName (fst (searchSingleCard bi net c)) = c"
  by (simp add: searchSingleCard_def Let_def)

lemma validation_events:
  "fst (snd (searchSingleCard bi net c)) = snd (validateCardName net c)"
  by (simp add: searchSingleCard_def Let_def)

lemma upt_shift: "[0..<Suc n] = 0 # map Suc [0..<n]"
  by (simp add: upt_conv_Cons map_Suc_upt del: upt_Suc)

lemma upt_one: "[0..<Suc 0] = [0]"
  by simp

lemma search_loop_unfold:
  "search_loop bi nets i cs rs =
     (rs @ map (\<lambda>k. fst (searchSingleCard bi (nets (i + k)) (cs ! k))) [0..<length cs],
      concat (map (\<lambda>k. (if i + k > 0 then [Delay 100] else []) @
                      [SearchCall (cs ! k),
                       Publish (rs @ map (\<lambda>j. fst (searchSingleCard bi (nets (i + j)) (cs ! j)))
                                       [0..<Suc k])])
                [0..<length cs]))"
proof (induction cs arbitrary: i rs)
  case Nil
  then show ?case by simp
next
  case (Cons c cs)
  have "search_loop bi nets i (c # cs) rs =
      (fst (search_loop bi nets (Suc i) cs (rs @ [fst (searchSingleCard bi (nets i) c)])),
       (if i > 0 then [Delay 100] else []) @
       [SearchCall c, Publish (rs @ [fst (searchSingleCard bi (nets i) c)])] @
       snd (search_loop bi nets (Suc i) cs (rs @ [fst (searchSingleCard bi (nets i) c)])))"
    by (simp add: Let_def)
  also have "\<dots> = (rs @ map (\<lambda>k. fst (searchSingleCard bi (nets (i + k)) ((c # cs) ! k)))
                         [0..<length (c # cs)],
      concat (map (\<lambda>k. (if i + k > 0 then [Delay 100] else []) @
                      [SearchCall ((c # cs) ! k),
                       Publish (rs @ map (\<lambda>j. fst (searchSingleCard bi (nets (i + j)) ((c # cs) ! j)))
                                       [0..<Suc k])])
                [0..<length (c # cs)]))"
    unfolding Cons.IH
    by (simp add: upt_shift [of "length cs"] upt_shift [of "Suc _"] upt_one comp_def
          del: upt_Suc)
  finally show ?case .
qed

lemma some_status_counted:
  assumes "rs \<noteq> []"
  shows "\<not> (length (filter (\<lambda>r. status r = found) rs) = 0 \<and>
            length (filter (\<lambda>r. status r = not_found) rs) = 0 \<and>
            length (filter (\<lambda>r. status r = no_inventory) rs) = 0)"
proof -
  from assms obtain r rest where "rs = r # rest" by (cases rs) auto
  then show ?thesis by (cases "status r") auto
qed

lemma searchCards_run:
  assumes "cardsToSearch s \<noteq> []"
  shows "searchCards bi nets s =
     (s\<lparr>loading := False, error := [], showSuggestions := False,
        searchResults := fst (search_loop bi nets 0 (cardsToSearch s) [])\<rparr>,
      Publish [] # snd (search_loop bi nets 0 (cardsToSearch s) []))"
proof -
  have "fst (search_loop bi nets 0 (cardsToSearch s) []) \<noteq> []"
    using assms by (simp add: search_loop_unfold)
  from some_status_counted [OF this] assms show ?thesis
    by (simp add: searchCards_def Let_def)
qed

text \<open>
  C6: for a non-empty list of names the batch publishes the empty list, then for each
  name in input order pauses 100 ms (except before the first), calls the single-card
  search on that name and publishes the outcomes so far, one more each time; it ends
  with one outcome per name, in input order.
\<close>

theorem searchCards_batch:
  assumes "cardsToSearch s \<noteq> []"
  shows "snd (searchCards bi nets s) =
       Publish [] #
       concat (map (\<lambda>k. (if k > 0 then [Delay 100] else []) @
                       [SearchCall (cardsToSearch s ! k),
                        Publish (map (\<lambda>j. fst (searchSingleCard bi (nets j) (cardsToSearch s ! j)))
                                   [0..<Suc k])])
                 [0..<length (cardsToSearch s)]) \<and>
     searchResults (fst (searchCards bi nets s)) =
       map (\<lambda>j. fst (searchSingleCard bi (nets j) (cardsToSearch s ! j)))
         [0..<length (cardsToSearch s)] \<and>
     map cardName (searchResults (fst (searchCards bi nets s))) = cardsToSearch s \<and>
     loading (fst (searchCards bi nets s)) = False \<and>
     error (fst (searchCards bi nets s)) = []"
proof -
  have "map cardName (map (\<lambda>j. fst (searchSingleCard bi (nets j) (cardsToSearch s ! j)))
         [0..<length (cardsToSearch s)]) = cardsToSearch s"
    by (simp add: comp_def cardName_searchSingleCard map_nth)
  then show ?thesis
    unfolding searchCards_run [OF assms] search_loop_unfold
    by (simp del: upt_Suc)
qed


lemma searchSingleCard_dead_net:
  "fst (searchSingleCard bi dead_net c) = \<lparr>cardName = c, status = not_found, results = []\<rparr>"
  by (simp add: searchSingleCard_invalid [OF validate_dead_net])

theorem searchCards_batch_witness:
  "cardsToSearch
     \<lparr>searchTerm = [], cardList = ''Bolt\<newline> Shock \<newline>\<newline>Opt'', searchResults = [],
      loading = False, error = [], showSuggestions = False, searchMode = ListMode\<rparr> =
     [''Bolt'', ''Shock'', ''Opt''] \<and>
   snd (searchCards example_builtins (\<lambda>i. dead_net)
     \<lparr>searchTerm = [], cardList = ''Bolt\<newline> Shock \<newline>\<newline>Opt'', searchResults = [],
      loading = False, error = [], showSuggestions = False, searchMode = ListMode\<rparr>) =
     [Publish [],
      SearchCall ''Bolt'',
      Publish [\<lparr>cardName = ''Bolt'', status = not_found, results = []\<rparr>],
      Delay 100,
      SearchCall ''Shock'',
      Publish [\<lparr>cardName = ''Bolt'', status = not_found, results = []\<rparr>,
               \<lparr>cardName = ''Shock'', status = not_found, results = []\<rparr>],
      Delay 100,
      SearchCall ''Opt'',
      Publish [\<lparr>cardName = ''Bolt'', status = not_found, results = []\<rparr>,
               \<lparr>cardName = ''Shock'', status = not_found, results = []\<rparr>,
               \<lparr>cardName = ''Opt'', status = not_found, results = []\<rparr>]]"
proof -
  let ?s = "\<lparr>searchTerm = [], cardList = ''Bolt\<newline> Shock \<newline>\<newline>Opt'', searchResults = [],
      loading = False, error = [], showSuggestions = False, searchMode = ListMode\<rparr>"
  have names: "cardsToSearch ?s = [''Bolt'', ''Shock'', ''Opt'']"
    by code_simp
  then have "cardsToSearch ?s \<noteq> []"
    by simp
  from searchCards_batch [OF this, of example_builtins "\<lambda>i. dead_net"] names
  show ?thesis
    by (simp add: searchSingleCard_dead_net)
qed

lemma trim_blank:
  assumes "\<forall>ch\<in>set t. is_space ch"
  shows "trim t = []"
proof -
  have blank: "dropWhile is_space t = []"
    using assms by (induction t) auto
  show ?thesis
    unfolding trim_def blank by simp
qed

text \<open>
  C9: in single mode a search term of white space only is trimmed to the empty string,
  the list of cards is the one-element list holding it, the guard on an empty list does
  not fire, and the batch validates and searches the empty string; no "please enter a
  card name" error is set.
\<close>

theorem searchCards_blank_term:
  assumes "searchMode s = SingleMode" and "\<forall>ch\<in>set (searchTerm s). is_space ch"
  shows "cardsToSearch s = [[]] \<and>
     snd (searchCards bi nets s) =
       [Publish [], SearchCall [], Publish [fst (searchSingleCard bi (nets 0) [])]] \<and>
     fst (snd (searchSingleCard bi (nets 0) [])) =
       [Fetch ''https://api.scryfall.com/cards/named?exact=''] \<and>
     error (fst (searchCards bi nets s)) = [] \<and>
     error (fst (searchCards bi nets s)) \<noteq> ''Please enter a card name to search''"
proof -
  have cards: "cardsToSearch s = [[]]"
    using assms by (simp add: cardsToSearch_def trim_blank)
  then have run: "cardsToSearch s \<noteq> []"
    by simp
  have "fst (snd (searchSingleCard bi (nets 0) [])) =
       [Fetch ''https://api.scryfall.com/cards/named?exact='']"
    unfolding validation_events
    by (simp add: validateCardName_def trim_def encodeURIComponent_def Let_def
          split: fetch_outcome.splits)
  then show ?thesis
    unfolding searchCards_run [OF run] search_loop_unfold cards
    by simp
qed

theorem searchCards_blank_term_witness:
  "cardsToSearch
     \<lparr>searchTerm = ''   '', cardList = [], searchResults = [], loading = False, error = [],
      showSuggestions = False, searchMode = SingleMode\<rparr> = [[]] \<and>
   snd (searchCards example_builtins (\<lambda>i. dead_net)
     \<lparr>searchTerm = ''   '', cardList = [], searchResults = [], loading = False, error = [],
      showSuggestions = False, searchMode = SingleMode\<rparr>) =
     [Publish [], SearchCall [],
      Publish [\<lparr>cardName = [], status = not_found, results = []\<rparr>]] \<and>
   error (fst (searchCards example_builtins (\<lambda>i. dead_net)
     \<lparr>searchTerm = ''   '', cardList = [], searchResults = [], loading = False, error = [],
      showSuggestions = False, searchMode = SingleMode\<rparr>)) = []"
proof -
  let ?s = "\<lparr>searchTerm = ''   '', cardList = [], searchResults = [], loading = False,
      error = [], showSuggestions = False, searchMode = SingleMode\<rparr>"
  have mode: "searchMode ?s = SingleMode"
    by simp
  have blank: "\<forall>ch\<in>set (searchTerm ?s). is_space ch"
    by (simp add: is_space_def)
  from searchCards_blank_term [OF mode blank, of example_builtins "\<lambda>i. dead_net"]
  show ?thesis
    by (simp add: searchSingleCard_dead_net)
qed

end
